theory Spec2Isabelle
  imports Complex_Main "HOL-Library.AList"
begin

section \<open>DJKeyTool: the note-state and audio-voice engine of \<^verbatim>\<open>script.js\<close>\<close>

text \<open>
  The script keeps its state in module-level variables and mutates them from event
  handlers. The embedding collects those variables in one record and turns every function
  into a state transformer. A JavaScript number is modelled by a real number, which stands
  for the double nearest to it: \<open>261.63\<close> is the number the literal \<^verbatim>\<open>261.63\<close> denotes.
  The arithmetic on a key of the registry is a multiplication by a power of two between
  \<open>2^-3\<close> and \<open>2^3\<close>, which is exact on doubles. The one test whose outcome depends on
  rounding, \<^verbatim>\<open>Math.abs(noteFreq - frequency) < 0.01\<close> in \<^verbatim>\<open>getNoteFromFrequency\<close>, is
  evaluated in double arithmetic (\<open>toDouble\<close> below).
  The DOM (class lists, labels, the centre display) and the static audio graph
  (compressor, connections) are outputs of the script and are not part of the state.
\<close>

subsection \<open>Data\<close>

type_synonym note_name = string

text \<open>The two strings \<^verbatim>\<open>'major'\<close> and \<^verbatim>\<open>'minor'\<close> passed around as \<^verbatim>\<open>type\<close>.\<close>

datatype chord_type = Major | Minor

text \<open>
  An entry of \<^verbatim>\<open>heldNotes\<close> is either a plain string (pushed by \<^verbatim>\<open>playNote\<close>) or an object
  \<^verbatim>\<open>{ note, source: 'wheel', type }\<close> (pushed by \<^verbatim>\<open>playNoteFromWheel\<close>).
\<close>

datatype held_note = Plain note_name | Wheel note_name chord_type

text \<open>\<^verbatim>\<open>typeof note === 'string' ? note : note.note\<close>\<close>

fun note_of :: "held_note \<Rightarrow> note_name" where
  "note_of (Plain n) = n"
| "note_of (Wheel n t) = n"

text \<open>
  A gain node is its \<^verbatim>\<open>gain.value\<close> as the script reads it, and the automation calls made
  on \<^verbatim>\<open>gain\<close> so far, oldest first.
\<close>

datatype automation =
    CancelScheduledValues real
  | SetValueAtTime real real
  | LinearRampToValueAtTime real real

record gain_node =
  gain_value :: real
  gain_calls :: "automation list"

record oscillator_node =
  osc_frequency :: real
  osc_type :: string
  osc_started :: bool

text \<open>The object stored in \<^verbatim>\<open>activeOscillators[actualFrequency]\<close>.\<close>

record voice =
  oscillator :: oscillator_node
  gainNode :: gain_node
  baseFrequency :: real
  isPrimary :: bool
  chordType :: "chord_type option"

text \<open>
  The module-level variables. \<^verbatim>\<open>activeOscillators\<close> is an object used as a dictionary: an
  association list in insertion order with one pair per key. \<open>timeouts\<close> holds the pending
  \<^verbatim>\<open>setTimeout\<close> callbacks of \<^verbatim>\<open>stopNote\<close> (delay in milliseconds and the two nodes the
  callback will stop and disconnect). \<open>currentTime\<close> is \<^verbatim>\<open>audioContext.currentTime\<close>.
\<close>

record app =
  currentTime :: real
  MASTER_GAIN :: real
  masterGainNode :: gain_node
  activeOscillators :: "(real \<times> voice) list"
  isMouseDown :: bool
  currentPlayingFrequency :: "real option"
  activeKeys :: "string set"
  heldNotes :: "held_note list"
  lastPlayedNote :: "held_note option"
  majorOnTop :: bool
  notationType :: string
  useFlats :: bool
  octaveShift :: int
  timeouts :: "(nat \<times> oscillator_node \<times> gain_node) list"

subsection \<open>Constants\<close>

definition OSC_GAIN :: real where
  "OSC_GAIN = 0.15"

definition MAX_OCTAVE_SHIFT :: int where
  "MAX_OCTAVE_SHIFT = 3"

definition MIN_OCTAVE_SHIFT :: int where
  "MIN_OCTAVE_SHIFT = - 3"

definition NOTE_FREQUENCIES :: "(note_name \<times> real) list" where
  "NOTE_FREQUENCIES =
    [(''C'', 261.63), (''C#'', 277.18), (''D'', 293.66), (''D#'', 311.13),
     (''E'', 329.63), (''F'', 349.23), (''F#'', 369.99), (''G'', 392.00),
     (''G#'', 415.30), (''A'', 440.00), (''A#'', 466.16), (''B'', 493.88)]"

definition circleOfFifthsOrder :: "note_name list" where
  "circleOfFifthsOrder =
    [''A'', ''E'', ''B'', ''F#'', ''C#'', ''G#'', ''D#'', ''A#'', ''F'', ''C'', ''G'', ''D'']"

text \<open>
  \<^verbatim>\<open>keyboardMap\<close> is written with \<^verbatim>\<open>NOTE_FREQUENCIES['C']\<close> and so on as its values; a
  key that is not in the literal gives \<^verbatim>\<open>undefined\<close>.
\<close>

definition keyboardMap :: "string \<Rightarrow> real option" where
  "keyboardMap key =
     (case map_of
        [(''a'', ''C''), (''w'', ''C#''), (''s'', ''D''), (''e'', ''D#''), (''d'', ''E''),
         (''f'', ''F''), (''t'', ''F#''), (''g'', ''G''), (''y'', ''G#''), (''h'', ''A''),
         (''u'', ''A#''), (''j'', ''B'')] key of
        None \<Rightarrow> None
      | Some noteName \<Rightarrow> map_of NOTE_FREQUENCIES noteName)"

subsection \<open>JavaScript primitives\<close>

text \<open>
  A number is truthy unless it is zero; a missing property is \<^verbatim>\<open>undefined\<close>, which is
  falsy.
\<close>

definition truthy :: "real option \<Rightarrow> bool" where
  "truthy x = (case x of None \<Rightarrow> False | Some v \<Rightarrow> v \<noteq> 0)"

text \<open>The remainder operator \<^verbatim>\<open>%\<close> truncates towards zero.\<close>

definition js_rem :: "int \<Rightarrow> int \<Rightarrow> int" where
  "js_rem a b = sgn a * (\<bar>a\<bar> mod \<bar>b\<bar>)"

text \<open>\<^verbatim>\<open>Array.prototype.indexOf\<close>: the first position, or -1.\<close>

fun indexFrom :: "'a list \<Rightarrow> 'a \<Rightarrow> int \<Rightarrow> int" where
  "indexFrom [] x i = - 1"
| "indexFrom (y # ys) x i = (if y = x then i else indexFrom ys x (i + 1))"

definition indexOf :: "'a list \<Rightarrow> 'a \<Rightarrow> int" where
  "indexOf xs x = indexFrom xs x 0"

text \<open>
  \<^verbatim>\<open>findIndex\<close> followed by \<^verbatim>\<open>splice(index, 1)\<close> when the index is not -1: the first
  element satisfying the test is removed, the others keep their order.
\<close>

fun spliceFirst :: "('a \<Rightarrow> bool) \<Rightarrow> 'a list \<Rightarrow> 'a list" where
  "spliceFirst P [] = []"
| "spliceFirst P (x # xs) = (if P x then xs else x # spliceFirst P xs)"

text \<open>
  IEEE 754 binary64, round to nearest, ties to even. \<open>binade x\<close> is the exponent \<open>e\<close> with
  \<open>2^e \<le> |x| < 2^(e+1)\<close>, searched downwards from 1023 and stopped at -1022, where the
  subnormal numbers begin; the unit in the last place is \<open>2^(e-52)\<close>, and \<open>toDouble x\<close> is
  the multiple of it nearest to \<open>x\<close>. Overflow to \<^verbatim>\<open>Infinity\<close> (from \<open>2^1024\<close> on) and
  \<^verbatim>\<open>NaN\<close> are not modelled.
\<close>

definition roundTiesToEven :: "real \<Rightarrow> int" where
  "roundTiesToEven t =
     (let n = \<lfloor>t\<rfloor>; d = t - of_int n
      in if d < 1 / 2 then n else if 1 / 2 < d then n + 1 else if even n then n else n + 1)"

fun exponentFrom :: "nat \<Rightarrow> int \<Rightarrow> real \<Rightarrow> int" where
  "exponentFrom 0 e a = e"
| "exponentFrom (Suc n) e a = (if 2 powi e \<le> a then e else exponentFrom n (e - 1) a)"

definition binade :: "real \<Rightarrow> int" where
  "binade x = exponentFrom 2045 1023 \<bar>x\<bar>"

definition toDouble :: "real \<Rightarrow> real" where
  "toDouble x =
     (let ulp = 2 powi (binade x - 52)
      in of_int (roundTiesToEven (x / ulp)) * ulp)"

text \<open>
  \<^verbatim>\<open>Math.abs(noteFreq - frequency) < 0.01\<close> on doubles: the two operands and the literal
  \<^verbatim>\<open>0.01\<close> are doubles, the difference is rounded, \<^verbatim>\<open>Math.abs\<close> is exact.
\<close>

definition nearDouble :: "real \<Rightarrow> real \<Rightarrow> bool" where
  "nearDouble noteFreq frequency \<longleftrightarrow>
     \<bar>toDouble (toDouble noteFreq - toDouble frequency)\<bar> < toDouble 0.01"

text \<open>
  The own keys of an object are enumerated with the array indices first, in ascending
  numeric order, and the other keys after them in insertion order. A key of
  \<^verbatim>\<open>activeOscillators\<close> is the string of a number, so \<^verbatim>\<open>"392"\<close> and \<^verbatim>\<open>"440"\<close> are
  array indices and \<^verbatim>\<open>"261.63"\<close> is not.
\<close>

definition isArrayIndex :: "real \<Rightarrow> bool" where
  "isArrayIndex k \<longleftrightarrow> 0 \<le> k \<and> k < 4294967295 \<and> of_int \<lfloor>k\<rfloor> = k"

definition Object_entries :: "(real \<times> 'v) list \<Rightarrow> (real \<times> 'v) list" where
  "Object_entries obj =
     sort_key fst (filter (\<lambda>e. isArrayIndex (fst e)) obj)
       @ filter (\<lambda>e. \<not> isArrayIndex (fst e)) obj"

definition Object_keys :: "(real \<times> 'v) list \<Rightarrow> real list" where
  "Object_keys obj = map fst (Object_entries obj)"

subsection \<open>Note names\<close>

definition noteOrder :: "note_name list" where
  "noteOrder = [''C'', ''C#'', ''D'', ''D#'', ''E'', ''F'', ''F#'', ''G'', ''G#'', ''A'', ''A#'', ''B'']"

definition shiftNoteBySemitones :: "note_name \<Rightarrow> int \<Rightarrow> note_name" where
  "shiftNoteBySemitones noteName semitones =
     (let currentIndex = indexOf noteOrder noteName;
          newIndex = js_rem (js_rem (currentIndex + semitones) 12 + 12) 12
      in noteOrder ! nat newIndex)"

text \<open>The loop of \<^verbatim>\<open>getNoteFromFrequency\<close> over \<^verbatim>\<open>Object.entries(NOTE_FREQUENCIES)\<close>.\<close>

fun firstNoteNear :: "(note_name \<times> real) list \<Rightarrow> real \<Rightarrow> note_name option" where
  "firstNoteNear [] frequency = None"
| "firstNoteNear ((noteName, noteFreq) # rest) frequency =
     (if nearDouble noteFreq frequency then Some noteName else firstNoteNear rest frequency)"

definition getNoteFromFrequency :: "real \<Rightarrow> note_name option" where
  "getNoteFromFrequency frequency = firstNoteNear NOTE_FREQUENCIES frequency"

subsection \<open>Polyphony gain\<close>

definition calculateVolume :: "app \<Rightarrow> real" where
  "calculateVolume s =
     (let activeCount = length (Object_keys (activeOscillators s))
      in if activeCount = 0 then MASTER_GAIN s
         else if activeCount = 1 then MASTER_GAIN s
         else max 0.05 (MASTER_GAIN s / sqrt (real activeCount)))"

text \<open>
  The body of the \<^verbatim>\<open>forEach\<close> in \<^verbatim>\<open>adjustActiveVolumes\<close>, on one gain node: nothing when
  \<^verbatim>\<open>gain.value\<close> is at most 0.01, else cancel, pin the current value and ramp to the target
  in 50 ms.
\<close>

definition rampGain :: "real \<Rightarrow> real \<Rightarrow> gain_node \<Rightarrow> gain_node" where
  "rampGain now targetVolume g =
     (let currentValue = gain_value g
      in if currentValue > 0.01
         then g\<lparr>gain_calls := gain_calls g @
                [CancelScheduledValues now, SetValueAtTime currentValue now,
                 LinearRampToValueAtTime targetVolume (now + 0.05)]\<rparr>
         else g)"

definition adjustActiveVolumes :: "app \<Rightarrow> app" where
  "adjustActiveVolumes s =
     (let targetVolume = calculateVolume s;
          now = currentTime s
      in s\<lparr>activeOscillators :=
             map (\<lambda>(k, v). (k, v\<lparr>gainNode := rampGain now targetVolume (gainNode v)\<rparr>))
               (activeOscillators s)\<rparr>)"

subsection \<open>Note off and note on\<close>

definition stopNote :: "real \<Rightarrow> app \<Rightarrow> app" where
  "stopNote actualFrequency s =
     (case map_of (activeOscillators s) actualFrequency of
        None \<Rightarrow> s
      | Some v \<Rightarrow>
          (let now = currentTime s;
               currentValue = gain_value (gainNode v);
               g = (gainNode v)\<lparr>gain_calls := gain_calls (gainNode v) @
                     [CancelScheduledValues now, SetValueAtTime currentValue now,
                      LinearRampToValueAtTime 0 (now + 0.05)]\<rparr>;
               frequencyToUnhighlight =
                 (if baseFrequency v \<noteq> 0 then baseFrequency v else actualFrequency);
               s1 = s\<lparr>activeOscillators := AList.delete actualFrequency (activeOscillators s),
                      timeouts := timeouts s @ [(200, oscillator v, g)]\<rparr>
           in case getNoteFromFrequency frequencyToUnhighlight of
                None \<Rightarrow> s1
              | Some noteName \<Rightarrow>
                  s1\<lparr>heldNotes := spliceFirst (\<lambda>note. note_of note = noteName) (heldNotes s1)\<rparr>))"

text \<open>
  The part shared by \<^verbatim>\<open>playNote\<close> and \<^verbatim>\<open>playNoteFromWheel\<close>: a new oscillator and a new
  gain node, the gain set to 0 and ramped to \<^verbatim>\<open>OSC_GAIN\<close> in 7 ms, the oscillator started.
  \<^verbatim>\<open>playNote(frequency, applyOctaveShift = true, isPrimary = true)\<close> has two default
  parameters; the model takes all three, and a call site that omits them passes \<open>True\<close>.
\<close>

definition newOscillator :: "real \<Rightarrow> oscillator_node" where
  "newOscillator actualFrequency =
     \<lparr>osc_frequency = actualFrequency, osc_type = ''sine'', osc_started = True\<rparr>"

definition newGain :: "real \<Rightarrow> gain_node" where
  "newGain now =
     \<lparr>gain_value = 0,
      gain_calls = [SetValueAtTime 0 now, LinearRampToValueAtTime OSC_GAIN (now + 0.007)]\<rparr>"

definition playNote :: "real \<Rightarrow> bool \<Rightarrow> bool \<Rightarrow> app \<Rightarrow> app" where
  "playNote frequency applyOctaveShift isPrimary' s =
     (let actualFrequency =
            (if applyOctaveShift then frequency * 2 powi octaveShift s else frequency);
          s1 = (if map_of (activeOscillators s) actualFrequency \<noteq> None
                then stopNote actualFrequency s else s);
          s2 = s1\<lparr>activeOscillators :=
                 AList.update actualFrequency
                   \<lparr>oscillator = newOscillator actualFrequency,
                    gainNode = newGain (currentTime s1),
                    baseFrequency = frequency, isPrimary = isPrimary', chordType = None\<rparr>
                   (activeOscillators s1)\<rparr>
      in case getNoteFromFrequency frequency of
           None \<Rightarrow> s2
         | Some noteName \<Rightarrow>
             s2\<lparr>heldNotes :=
                  spliceFirst (\<lambda>note. note_of note = noteName) (heldNotes s2) @ [Plain noteName],
                lastPlayedNote := Some (Plain noteName)\<rparr>)"

definition playNoteFromWheel :: "real \<Rightarrow> note_name \<Rightarrow> chord_type \<Rightarrow> app \<Rightarrow> app" where
  "playNoteFromWheel frequency noteName type s =
     (let actualFrequency = frequency * 2 powi octaveShift s;
          s1 = (if map_of (activeOscillators s) actualFrequency \<noteq> None
                then stopNote actualFrequency s else s);
          s2 = s1\<lparr>activeOscillators :=
                 AList.update actualFrequency
                   \<lparr>oscillator = newOscillator actualFrequency,
                    gainNode = newGain (currentTime s1),
                    baseFrequency = frequency, isPrimary = True, chordType = Some type\<rparr>
                   (activeOscillators s1)\<rparr>
      in s2\<lparr>heldNotes :=
              spliceFirst (\<lambda>note. note_of note = noteName) (heldNotes s2)
                @ [Wheel noteName type],
            lastPlayedNote := Some (Wheel noteName type)\<rparr>)"

subsection \<open>Octave transposition\<close>

text \<open>
  \<^verbatim>\<open>shiftActiveNotes\<close> is called after the handler has already written the new value of
  \<^verbatim>\<open>octaveShift\<close>; its two parameters are not used in its body. It snapshots the entries
  of the registry, stops each at its registered frequency, and restarts those whose base
  frequency has a note name: through \<^verbatim>\<open>playNoteFromWheel\<close> when \<^verbatim>\<open>heldNotes\<close> has a wheel
  entry for the name at that moment, through \<^verbatim>\<open>playNote(note.baseFreq)\<close> otherwise.
\<close>

definition isWheelEntryFor :: "note_name \<Rightarrow> held_note \<Rightarrow> bool" where
  "isWheelEntryFor noteName hn = (case hn of Plain n \<Rightarrow> False | Wheel n t \<Rightarrow> n = noteName)"

definition restartNote :: "real \<times> real \<times> voice \<Rightarrow> app \<Rightarrow> app" where
  "restartNote note s =
     (case note of (actualFreq, baseFreq, data) \<Rightarrow>
        (case getNoteFromFrequency baseFreq of
           None \<Rightarrow> s
         | Some noteName \<Rightarrow>
             (case find (isWheelEntryFor noteName) (heldNotes s) of
                Some (Wheel n t) \<Rightarrow> playNoteFromWheel baseFreq noteName t s
              | _ \<Rightarrow> playNote baseFreq True True s)))"

definition shiftActiveNotes :: "int \<Rightarrow> int \<Rightarrow> app \<Rightarrow> app" where
  "shiftActiveNotes oldOctaveShift newOctaveShift s =
     (let activeNotes =
            map (\<lambda>(actualFreq, data). (actualFreq, baseFrequency data, data))
              (Object_entries (activeOscillators s));
          s1 = fold (\<lambda>note. stopNote (fst note)) activeNotes s
      in fold restartNote activeNotes s1)"

subsection \<open>Start-up\<close>

record settings =
  set_majorOnTop :: bool
  set_volume :: real
  set_notationType :: string
  set_useFlats :: bool

text \<open>The settings \<^verbatim>\<open>loadSettings\<close> returns when nothing has been saved.\<close>

definition defaultSettings :: settings where
  "defaultSettings =
     \<lparr>set_majorOnTop = False, set_volume = 0.7, set_notationType = ''camelot'',
      set_useFlats = False\<rparr>"

definition initialApp :: "settings \<Rightarrow> app" where
  "initialApp st =
     \<lparr>currentTime = 0,
      MASTER_GAIN = set_volume st,
      masterGainNode = \<lparr>gain_value = set_volume st, gain_calls = []\<rparr>,
      activeOscillators = [],
      isMouseDown = False,
      currentPlayingFrequency = None,
      activeKeys = {},
      heldNotes = [],
      lastPlayedNote = None,
      majorOnTop = set_majorOnTop st,
      notationType = (if set_notationType st = [] then ''camelot'' else set_notationType st),
      useFlats = set_useFlats st,
      octaveShift = 0,
      timeouts = []\<rparr>"

text \<open>
  \<^verbatim>\<open>createWheel\<close> makes, for every entry of \<^verbatim>\<open>notes\<close>, an inner path (the note itself,
  \<^verbatim>\<open>'minor'\<close>) and an outer path (the note three semitones up, \<^verbatim>\<open>'major'\<close>), and gives each
  the listeners of \<^verbatim>\<open>setupWheelEventListeners(path, frequency, noteName, type)\<close>.
\<close>

definition wheelElements :: "(real \<times> note_name \<times> chord_type) list" where
  "wheelElements =
     concat (map (\<lambda>noteName.
       (let outerNote = shiftNoteBySemitones noteName 3
        in (case map_of NOTE_FREQUENCIES noteName of
              None \<Rightarrow> [] | Some noteFrequency \<Rightarrow> [(noteFrequency, noteName, Minor)])
           @ (case map_of NOTE_FREQUENCIES outerNote of
              None \<Rightarrow> [] | Some outerFrequency \<Rightarrow> [(outerFrequency, outerNote, Major)])))
       circleOfFifthsOrder)"

text \<open>\<^verbatim>\<open>createPianoKeyboard\<close>: the white keys first, then the black keys.\<close>

definition isBlack :: "note_name \<Rightarrow> bool" where
  "isBlack noteName \<longleftrightarrow> CHR ''#'' \<in> set noteName"

definition pianoKeys :: "real list" where
  "pianoKeys =
     concat (map (\<lambda>noteName. case map_of NOTE_FREQUENCIES noteName of
                                None \<Rightarrow> [] | Some noteFrequency \<Rightarrow> [noteFrequency])
       (filter (\<lambda>n. \<not> isBlack n) noteOrder @ filter isBlack noteOrder))"

subsection \<open>Event handlers\<close>

text \<open>
  The block every plain input path repeats before it calls \<^verbatim>\<open>playNote\<close> (piano mousedown,
  mouseenter, touchstart and the keydown handler; \<^verbatim>\<open>updateActiveNotesHighlighting\<close> has it
  too): \<^verbatim>\<open>isPrimary\<close> is \<^verbatim>\<open>true\<close> unless the note has a counterpart, and then it is
  \<^verbatim>\<open>majorOnTop ? isMajorChordCenter : !isMajorChordCenter\<close>.
\<close>

definition plainIsPrimary :: "bool \<Rightarrow> real \<Rightarrow> bool" where
  "plainIsPrimary majorOnTop' frequency =
     (case getNoteFromFrequency frequency of
        None \<Rightarrow> True
      | Some noteName \<Rightarrow>
          (let majorCounterpart = shiftNoteBySemitones noteName 3;
               minorCounterpart = shiftNoteBySemitones noteName (- 3)
           in if truthy (map_of NOTE_FREQUENCIES majorCounterpart)
                 \<or> truthy (map_of NOTE_FREQUENCIES minorCounterpart)
              then (let isMajorChordCenter = (map_of NOTE_FREQUENCIES minorCounterpart \<noteq> None)
                    in if majorOnTop' then isMajorChordCenter else \<not> isMajorChordCenter)
              else True))"

text \<open>
  \<^verbatim>\<open>if (currentPlayingFrequency && currentPlayingFrequency !== frequency)\<close> then stop the
  note the pointer was on, at its frequency under the current shift.
\<close>

definition stopCurrentPlaying :: "real \<Rightarrow> app \<Rightarrow> app" where
  "stopCurrentPlaying frequency s =
     (case currentPlayingFrequency s of
        None \<Rightarrow> s
      | Some current \<Rightarrow>
          if current \<noteq> 0 \<and> current \<noteq> frequency
          then stopNote (current * 2 powi octaveShift s) s else s)"

definition wheel_mousedown :: "real \<Rightarrow> note_name \<Rightarrow> chord_type \<Rightarrow> app \<Rightarrow> app" where
  "wheel_mousedown frequency noteName type s =
     (let s1 = stopCurrentPlaying frequency (s\<lparr>isMouseDown := True\<rparr>)
      in playNoteFromWheel frequency noteName type (s1\<lparr>currentPlayingFrequency := Some frequency\<rparr>))"

definition wheel_mouseenter :: "real \<Rightarrow> note_name \<Rightarrow> chord_type \<Rightarrow> app \<Rightarrow> app" where
  "wheel_mouseenter frequency noteName type s =
     (if isMouseDown s
      then (let s1 = stopCurrentPlaying frequency s
            in playNoteFromWheel frequency noteName type
                 (s1\<lparr>currentPlayingFrequency := Some frequency\<rparr>))
      else s)"

definition wheel_touchstart :: "real \<Rightarrow> note_name \<Rightarrow> chord_type \<Rightarrow> app \<Rightarrow> app" where
  "wheel_touchstart frequency noteName type s = playNoteFromWheel frequency noteName type s"

definition wheel_touchend :: "real \<Rightarrow> note_name \<Rightarrow> chord_type \<Rightarrow> app \<Rightarrow> app" where
  "wheel_touchend frequency noteName type s = stopNote (frequency * 2 powi octaveShift s) s"

definition document_mouseup :: "app \<Rightarrow> app" where
  "document_mouseup s =
     (let s1 = s\<lparr>isMouseDown := False\<rparr>
      in case currentPlayingFrequency s1 of
           None \<Rightarrow> s1
         | Some current \<Rightarrow>
             if current \<noteq> 0
             then (stopNote (current * 2 powi octaveShift s1) s1)\<lparr>currentPlayingFrequency := None\<rparr>
             else s1)"

definition piano_mousedown :: "real \<Rightarrow> app \<Rightarrow> app" where
  "piano_mousedown frequency s =
     (let s1 = stopCurrentPlaying frequency (s\<lparr>isMouseDown := True\<rparr>);
          s2 = s1\<lparr>currentPlayingFrequency := Some frequency\<rparr>
      in playNote frequency True (plainIsPrimary (majorOnTop s2) frequency) s2)"

definition piano_mouseenter :: "real \<Rightarrow> app \<Rightarrow> app" where
  "piano_mouseenter frequency s =
     (if isMouseDown s
      then (let s1 = stopCurrentPlaying frequency s;
                s2 = s1\<lparr>currentPlayingFrequency := Some frequency\<rparr>
            in playNote frequency True (plainIsPrimary (majorOnTop s2) frequency) s2)
      else s)"

definition piano_touchstart :: "real \<Rightarrow> app \<Rightarrow> app" where
  "piano_touchstart frequency s =
     playNote frequency True (plainIsPrimary (majorOnTop s) frequency) s"

definition piano_touchend :: "real \<Rightarrow> app \<Rightarrow> app" where
  "piano_touchend frequency s = stopNote (frequency * 2 powi octaveShift s) s"

text \<open>The fields of a keyboard event the handlers read.\<close>

record key_event =
  ev_key :: string
  ev_ctrlKey :: bool
  ev_metaKey :: bool
  ev_altKey :: bool
  ev_targetTagName :: string

definition toLowerCase :: "string \<Rightarrow> string" where
  "toLowerCase str =
     map (\<lambda>c. case map_of (zip ''ABCDEFGHIJKLMNOPQRSTUVWXYZ'' ''abcdefghijklmnopqrstuvwxyz'') c of
                None \<Rightarrow> c | Some l \<Rightarrow> l) str"

definition octaveDown :: "app \<Rightarrow> app" where
  "octaveDown s =
     (let oldOctaveShift = octaveShift s;
          s1 = s\<lparr>octaveShift := octaveShift s - 1\<rparr>
      in shiftActiveNotes oldOctaveShift (octaveShift s1) s1)"

definition octaveUp :: "app \<Rightarrow> app" where
  "octaveUp s =
     (let oldOctaveShift = octaveShift s;
          s1 = s\<lparr>octaveShift := octaveShift s + 1\<rparr>
      in shiftActiveNotes oldOctaveShift (octaveShift s1) s1)"

definition document_keydown :: "key_event \<Rightarrow> app \<Rightarrow> app" where
  "document_keydown e s =
     (if ev_ctrlKey e \<or> ev_metaKey e \<or> ev_altKey e \<or> ev_targetTagName e = ''INPUT'' then s
      else (let key = toLowerCase (ev_key e)
            in if key = ''z'' \<and> octaveShift s > MIN_OCTAVE_SHIFT then octaveDown s
               else if key = ''x'' \<and> octaveShift s < MAX_OCTAVE_SHIFT then octaveUp s
               else (case keyboardMap key of
                       None \<Rightarrow> s
                     | Some frequency \<Rightarrow>
                         if frequency \<noteq> 0 \<and> key \<notin> activeKeys s
                         then (let s1 = s\<lparr>activeKeys := insert key (activeKeys s)\<rparr>
                               in playNote frequency True
                                    (plainIsPrimary (majorOnTop s1) frequency) s1)
                         else s)))"

definition document_keyup :: "key_event \<Rightarrow> app \<Rightarrow> app" where
  "document_keyup e s =
     (let key = toLowerCase (ev_key e)
      in case keyboardMap key of
           None \<Rightarrow> s
         | Some frequency \<Rightarrow>
             if frequency \<noteq> 0 \<and> key \<in> activeKeys s
             then (let s1 = s\<lparr>activeKeys := activeKeys s - {key}\<rparr>
                   in stopNote (frequency * 2 powi octaveShift s1) s1)
             else s)"

text \<open>The \<^verbatim>\<open>blur\<close> listener of the window: all notes off.\<close>

definition window_blur :: "app \<Rightarrow> app" where
  "window_blur s =
     (let s1 = s\<lparr>isMouseDown := False, currentPlayingFrequency := None,
                 activeKeys := {}, heldNotes := []\<rparr>
      in fold stopNote (Object_keys (activeOscillators s1)) s1)"

definition octaveDown_click :: "app \<Rightarrow> app" where
  "octaveDown_click s = (if octaveShift s > MIN_OCTAVE_SHIFT then octaveDown s else s)"

definition octaveDisplay_click :: "app \<Rightarrow> app" where
  "octaveDisplay_click s =
     (let oldOctaveShift = octaveShift s;
          s1 = s\<lparr>octaveShift := 0\<rparr>
      in shiftActiveNotes oldOctaveShift (octaveShift s1) s1)"

definition octaveUp_click :: "app \<Rightarrow> app" where
  "octaveUp_click s = (if octaveShift s < MAX_OCTAVE_SHIFT then octaveUp s else s)"

definition majorOnTop_change :: "bool \<Rightarrow> app \<Rightarrow> app" where
  "majorOnTop_change checked s = s\<lparr>majorOnTop := checked\<rparr>"

definition notation_change :: "bool \<Rightarrow> app \<Rightarrow> app" where
  "notation_change checked s = s\<lparr>notationType := (if checked then ''openkey'' else ''camelot'')\<rparr>"

definition flats_change :: "bool \<Rightarrow> app \<Rightarrow> app" where
  "flats_change checked s = s\<lparr>useFlats := checked\<rparr>"

definition volume_input :: "real \<Rightarrow> app \<Rightarrow> app" where
  "volume_input v s =
     s\<lparr>MASTER_GAIN := v,
       masterGainNode := (masterGainNode s)\<lparr>gain_calls :=
          gain_calls (masterGainNode s) @ [SetValueAtTime v (currentTime s)]\<rparr>\<rparr>"

subsection \<open>The page as a transition system\<close>

text \<open>
  An event names the element it is dispatched to: a wheel path by its position in
  \<^verbatim>\<open>wheelElements\<close>, a piano key by its position in \<^verbatim>\<open>pianoKeys\<close>. An event for a position
  that has no element does nothing.
\<close>

datatype event =
    WheelMouseDown nat | WheelMouseEnter nat | WheelTouchStart nat | WheelTouchEnd nat
  | PianoMouseDown nat | PianoMouseEnter nat | PianoTouchStart nat | PianoTouchEnd nat
  | MouseUp | KeyDown key_event | KeyUp key_event | Blur
  | OctaveDownClick | OctaveDisplayClick | OctaveUpClick
  | MajorOnTopChange bool | NotationChange bool | FlatsChange bool | VolumeInput real

definition onWheel ::
  "(real \<Rightarrow> note_name \<Rightarrow> chord_type \<Rightarrow> app \<Rightarrow> app) \<Rightarrow> nat \<Rightarrow> app \<Rightarrow> app" where
  "onWheel handler i s =
     (if i < length wheelElements
      then (case wheelElements ! i of (frequency, noteName, type) \<Rightarrow> handler frequency noteName type s)
      else s)"

definition onPiano :: "(real \<Rightarrow> app \<Rightarrow> app) \<Rightarrow> nat \<Rightarrow> app \<Rightarrow> app" where
  "onPiano handler i s = (if i < length pianoKeys then handler (pianoKeys ! i) s else s)"

fun fire :: "event \<Rightarrow> app \<Rightarrow> app" where
  "fire (WheelMouseDown i) s = onWheel wheel_mousedown i s"
| "fire (WheelMouseEnter i) s = onWheel wheel_mouseenter i s"
| "fire (WheelTouchStart i) s = onWheel wheel_touchstart i s"
| "fire (WheelTouchEnd i) s = onWheel wheel_touchend i s"
| "fire (PianoMouseDown i) s = onPiano piano_mousedown i s"
| "fire (PianoMouseEnter i) s = onPiano piano_mouseenter i s"
| "fire (PianoTouchStart i) s = onPiano piano_touchstart i s"
| "fire (PianoTouchEnd i) s = onPiano piano_touchend i s"
| "fire MouseUp s = document_mouseup s"
| "fire (KeyDown e) s = document_keydown e s"
| "fire (KeyUp e) s = document_keyup e s"
| "fire Blur s = window_blur s"
| "fire OctaveDownClick s = octaveDown_click s"
| "fire OctaveDisplayClick s = octaveDisplay_click s"
| "fire OctaveUpClick s = octaveUp_click s"
| "fire (MajorOnTopChange b) s = majorOnTop_change b s"
| "fire (NotationChange b) s = notation_change b s"
| "fire (FlatsChange b) s = flats_change b s"
| "fire (VolumeInput v) s = volume_input v s"

text \<open>
  Between two events the audio clock advances, the gain of every live voice follows its
  scheduled ramps, and due timeouts run. The script only ever reads the resulting
  \<^verbatim>\<open>currentTime\<close> and \<^verbatim>\<open>gain.value\<close>, so the environment step leaves them arbitrary: the
  clock moves to any later time \<open>t\<close>, the gain of the voice at key \<open>k\<close> becomes \<open>level k\<close>,
  and the timeouts selected by \<open>due\<close> are removed (their callback stops and disconnects
  nodes that are no longer in the registry).
\<close>

definition elapse :: "real \<Rightarrow> (real \<Rightarrow> real) \<Rightarrow> (nat \<Rightarrow> bool) \<Rightarrow> app \<Rightarrow> app" where
  "elapse t level due s =
     s\<lparr>currentTime := t,
       activeOscillators :=
         map (\<lambda>(k, v). (k, v\<lparr>gainNode := (gainNode v)\<lparr>gain_value := level k\<rparr>\<rparr>))
           (activeOscillators s),
       timeouts := nths (timeouts s) {i. \<not> due i}\<rparr>"

inductive reachable :: "app \<Rightarrow> bool" where
  start: "reachable (initialApp st)"
| event: "reachable s \<Longrightarrow> reachable (fire e s)"
| clock: "reachable s \<Longrightarrow> currentTime s \<le> t \<Longrightarrow> reachable (elapse t level due s)"

subsection \<open>Invariants of the state\<close>

text \<open>
  At most one entry of \<^verbatim>\<open>heldNotes\<close> per note name; one pair per key of the registry; the
  octave shift between its two bounds; every voice registered at its base frequency times
  two to the current octave shift.
\<close>

definition ledger_distinct :: "app \<Rightarrow> bool" where
  "ledger_distinct s = distinct (map note_of (heldNotes s))"

definition keys_distinct :: "app \<Rightarrow> bool" where
  "keys_distinct s = distinct (map fst (activeOscillators s))"

definition shift_in_range :: "app \<Rightarrow> bool" where
  "shift_in_range s = (MIN_OCTAVE_SHIFT \<le> octaveShift s \<and> octaveShift s \<le> MAX_OCTAVE_SHIFT)"

definition sounding_consistent :: "app \<Rightarrow> bool" where
  "sounding_consistent s =
     list_all (\<lambda>(k, v). k = baseFrequency v * 2 powi octaveShift s) (activeOscillators s)"

definition engine_inv :: "app \<Rightarrow> bool" where
  "engine_inv s = (ledger_distinct s \<and> keys_distinct s \<and> shift_in_range s \<and> sounding_consistent s)"

text \<open>What the restart loop of \<^verbatim>\<open>shiftActiveNotes\<close> keeps, at the new shift \<open>c\<close>.\<close>

definition restart_inv :: "int \<Rightarrow> app \<Rightarrow> bool" where
  "restart_inv c s =
     (ledger_distinct s \<and> keys_distinct s \<and> sounding_consistent s \<and> octaveShift s = c)"

subsection \<open>Scenarios\<close>

text \<open>
  States the page reaches from a fresh start with the default settings (\<^verbatim>\<open>majorOnTop\<close> false,
  volume 0.7), used to run the handlers on concrete inputs. Piano key 0 is C, key 2 is E;
  wheel path 18 is the inner path of C (\<^verbatim>\<open>'minor'\<close>). In the \<open>sounding\<close> states a second
  has passed and the gain of every live voice has reached \<^verbatim>\<open>OSC_GAIN\<close>.
\<close>

definition touchedC :: app where
  "touchedC = fire (PianoTouchStart 0) (initialApp defaultSettings)"

definition soundingC :: app where
  "soundingC = elapse 1 (\<lambda>k. 0.15) (\<lambda>i. False) touchedC"

definition touchedE :: app where
  "touchedE = fire (PianoTouchStart 2) (initialApp defaultSettings)"

definition wheelC :: app where
  "wheelC = fire (WheelTouchStart 18) (initialApp defaultSettings)"

definition touchedCE :: app where
  "touchedCE = fire (PianoTouchStart 2) touchedC"

definition soundingCE :: app where
  "soundingCE = elapse 1 (\<lambda>k. 0.15) (\<lambda>i. False) touchedCE"

definition topOctave :: app where
  "topOctave =
     fire OctaveUpClick (fire OctaveUpClick (fire OctaveUpClick (initialApp defaultSettings)))"

definition topOctaveC :: app where
  "topOctaveC = fire (PianoTouchStart 0) topOctave"

definition bottomOctave :: app where
  "bottomOctave =
     fire OctaveDownClick
       (fire OctaveDownClick (fire OctaveDownClick (initialApp defaultSettings)))"

definition bottomOctaveC :: app where
  "bottomOctaveC = fire (PianoTouchStart 0) bottomOctave"

definition fiveVoices :: app where
  "fiveVoices =
     fold (\<lambda>i. fire (PianoTouchStart i)) [0, 1, 2, 3, 4] (initialApp defaultSettings)"

section \<open>Properties\<close>

subsection \<open>Rounding to a double\<close>

lemma roundTiesToEven_error: "\<bar>of_int (roundTiesToEven t) - t\<bar> \<le> 1 / 2"
  unfolding roundTiesToEven_def Let_def by (auto simp: abs_le_iff)

lemma exponentFrom_eq:
  "e \<le> e0 \<Longrightarrow> e0 - int n \<le> e \<Longrightarrow> 2 powi e \<le> a \<Longrightarrow> a < 2 powi (e + 1)
     \<Longrightarrow> exponentFrom n e0 a = e"
proof (induction n arbitrary: e0)
  case 0
  then show ?case by simp
next
  case (Suc n)
  show ?case
  proof (cases "2 powi e0 \<le> a")
    case True
    with Suc.prems(4) have "(2::real) powi e0 < 2 powi (e + 1)" by simp
    then have "e0 < e + 1"
      by (smt (verit) power_int_increasing)
    with Suc.prems(1) True show ?thesis by simp
  next
    case False
    with Suc.prems(3) have "(2::real) powi e < 2 powi e0" by simp
    then have "e < e0"
      by (smt (verit) power_int_increasing)
    with False Suc.prems show ?thesis by (simp add: Suc.IH)
  qed
qed

lemma exponentFrom_low:
  "exponentFrom n e0 a = e0 - int n \<or> 2 powi (exponentFrom n e0 a) \<le> a"
proof (induction n arbitrary: e0)
  case 0
  then show ?case by simp
next
  case (Suc n)
  show ?case using Suc.IH [of "e0 - 1"] by auto
qed

lemma binade_eq:
  assumes "- 1022 \<le> e" and "e \<le> 1023" and "2 powi e \<le> \<bar>x\<bar>" and "\<bar>x\<bar> < 2 powi (e + 1)"
  shows "binade x = e"
  unfolding binade_def using assms by (intro exponentFrom_eq) simp_all

lemma binade_low: "2 powi (binade x) \<le> max \<bar>x\<bar> (2 powi (- 1022))"
  using exponentFrom_low [of 2045 1023 "\<bar>x\<bar>"] by (auto simp: binade_def max_def)

lemma toDouble_eval:
  assumes "- 1022 \<le> e" and "e \<le> 1023" and "2 powi e \<le> \<bar>x\<bar>" and "\<bar>x\<bar> < 2 powi (e + 1)"
  shows "toDouble x = of_int (roundTiesToEven (x / 2 powi (e - 52))) * 2 powi (e - 52)"
  by (simp add: toDouble_def Let_def binade_eq [OF assms])

lemma toDouble_zero [simp]: "toDouble 0 = 0"
  by (simp add: toDouble_def roundTiesToEven_def)

lemma toDouble_error: "\<bar>toDouble x - x\<bar> \<le> max \<bar>x\<bar> (2 powi (- 1022)) / 2 ^ 53"
proof -
  define u :: real where "u = 2 powi (binade x - 52)"
  have u: "0 < u" by (simp add: u_def)
  have "toDouble x - x = (of_int (roundTiesToEven (x / u)) - x / u) * u"
    using u by (simp add: toDouble_def u_def [symmetric] algebra_simps)
  then have "\<bar>toDouble x - x\<bar> = \<bar>of_int (roundTiesToEven (x / u)) - x / u\<bar> * u"
    using u by (simp add: abs_mult)
  also have "\<dots> \<le> (1 / 2) * u"
    using u roundTiesToEven_error [of "x / u"] by (intro mult_right_mono) simp_all
  also have "(1 / 2) * u = 2 powi (binade x) / 2 ^ 53"
    by (simp add: u_def power_int_diff)
  also have "\<dots> \<le> max \<bar>x\<bar> (2 powi (- 1022)) / 2 ^ 53"
    using binade_low [of x] by (intro divide_right_mono) simp_all
  finally show ?thesis .
qed


lemma toDouble_hundredth: "toDouble 0.01 = 5764607523034235 / 2 ^ 59"
  by (subst toDouble_eval [where e = "- 7"]) (simp_all add: power_int_minus roundTiesToEven_def)

lemma toDouble_error_normal:
  assumes "1 / 2 ^ 60 \<le> \<bar>x\<bar>"
  shows "\<bar>toDouble x - x\<bar> \<le> \<bar>x\<bar> / 10 ^ 15"
proof -
  have "(2::real) powi (- 1022) \<le> 2 powi (- 60)"
    by (rule power_int_increasing) simp_all
  also have "\<dots> = 1 / 2 ^ 60" by (simp add: power_int_minus field_simps)
  finally have "max \<bar>x\<bar> (2 powi (- 1022)) = \<bar>x\<bar>" using assms by simp
  then have "\<bar>toDouble x - x\<bar> \<le> \<bar>x\<bar> / 2 ^ 53"
    using toDouble_error [of x] by simp
  also have "\<dots> \<le> \<bar>x\<bar> / 10 ^ 15"
    by (intro divide_left_mono) simp_all
  finally show ?thesis .
qed

lemma toDouble_error_small:
  assumes "\<bar>x\<bar> \<le> 2000"
  shows "\<bar>toDouble x - x\<bar> \<le> 1 / 10 ^ 9"
proof -
  have "(2::real) powi (- 1022) \<le> 2 powi 0"
    by (rule power_int_increasing) simp_all
  then have "max \<bar>x\<bar> (2 powi (- 1022)) \<le> 2000" using assms by simp
  then have "max \<bar>x\<bar> (2 powi (- 1022)) / 2 ^ 53 \<le> 2000 / 2 ^ 53"
    by (intro divide_right_mono) simp_all
  also have "\<dots> \<le> 1 / 10 ^ 9" by simp
  finally show ?thesis using toDouble_error [of x] by simp
qed

lemma nearDouble_far:
  assumes "1 \<le> nf" and "nf \<le> 1000" and "0.011 \<le> \<bar>nf - f\<bar>"
  shows "\<not> nearDouble nf f"
proof -
  define A where "A = toDouble nf"
  define B where "B = toDouble f"
  have eA: "\<bar>A - nf\<bar> \<le> 1 / 10 ^ 9"
    unfolding A_def using assms(1,2) by (intro toDouble_error_small) simp
  have y: "0.0109 \<le> \<bar>A - B\<bar>"
  proof (cases "\<bar>f\<bar> \<le> 2000")
    case True
    then have "\<bar>B - f\<bar> \<le> 1 / 10 ^ 9"
      unfolding B_def by (rule toDouble_error_small)
    with eA assms(3) show ?thesis by (simp add: abs_if split: if_splits)
  next
    case False
    then have "1 / 2 ^ 60 \<le> \<bar>f\<bar>" by simp
    then have "\<bar>B - f\<bar> \<le> \<bar>f\<bar> / 10 ^ 15"
      unfolding B_def by (rule toDouble_error_normal)
    with eA assms(1,2) False show ?thesis by (simp add: abs_if split: if_splits)
  qed
  then have "1 / 2 ^ 60 \<le> \<bar>A - B\<bar>" by simp
  then have "\<bar>toDouble (A - B) - (A - B)\<bar> \<le> \<bar>A - B\<bar> / 10 ^ 15"
    by (rule toDouble_error_normal)
  with y have "0.0108 \<le> \<bar>toDouble (A - B)\<bar>" by (simp add: abs_if split: if_splits)
  then show ?thesis
    using toDouble_hundredth by (simp add: nearDouble_def A_def B_def)
qed

lemma nearDouble_near:
  assumes "1 \<le> nf" and "nf \<le> 1000" and "\<bar>nf - f\<bar> \<le> 0.009"
  shows "nearDouble nf f"
proof -
  define A where "A = toDouble nf"
  define B where "B = toDouble f"
  have eA: "\<bar>A - nf\<bar> \<le> 1 / 10 ^ 9"
    unfolding A_def using assms(1,2) by (intro toDouble_error_small) simp
  have "\<bar>f\<bar> \<le> 2000" using assms by (simp add: abs_if split: if_splits)
  then have eB: "\<bar>B - f\<bar> \<le> 1 / 10 ^ 9"
    unfolding B_def by (rule toDouble_error_small)
  have y: "\<bar>A - B\<bar> \<le> 0.0091"
    using eA eB assms(3) by (simp add: abs_if split: if_splits)
  then have "\<bar>toDouble (A - B) - (A - B)\<bar> \<le> 1 / 10 ^ 9"
    by (intro toDouble_error_small) simp
  with y have "\<bar>toDouble (A - B)\<bar> \<le> 0.0092" by (simp add: abs_if split: if_splits)
  then show ?thesis
    using toDouble_hundredth by (simp add: nearDouble_def A_def B_def)
qed


lemma nearDouble_boundary: "nearDouble 369.99 370"
proof -
  have a: "toDouble 369.99 = 1627233228643369 / 2 ^ 42"
    by (subst toDouble_eval [where e = 8]) (simp_all add: roundTiesToEven_def)
  have b: "toDouble 370 = 370"
    by (subst toDouble_eval [where e = 8]) (simp_all add: roundTiesToEven_def)
  have c: "toDouble (1627233228643369 / 2 ^ 42 - 370) = 1627233228643369 / 2 ^ 42 - 370"
    by (subst toDouble_eval [where e = "- 7"]) (simp_all add: power_int_minus roundTiesToEven_def)
  show ?thesis
    unfolding nearDouble_def a b c using toDouble_hundredth by simp
qed

subsection \<open>The tables, evaluated\<close>

lemma NOTE_FREQUENCIES_lookup:
  "map_of NOTE_FREQUENCIES ''C'' = Some 261.63"
  "map_of NOTE_FREQUENCIES ''C#'' = Some 277.18"
  "map_of NOTE_FREQUENCIES ''D'' = Some 293.66"
  "map_of NOTE_FREQUENCIES ''D#'' = Some 311.13"
  "map_of NOTE_FREQUENCIES ''E'' = Some 329.63"
  "map_of NOTE_FREQUENCIES ''F'' = Some 349.23"
  "map_of NOTE_FREQUENCIES ''F#'' = Some 369.99"
  "map_of NOTE_FREQUENCIES ''G'' = Some 392"
  "map_of NOTE_FREQUENCIES ''G#'' = Some 415.30"
  "map_of NOTE_FREQUENCIES ''A'' = Some 440"
  "map_of NOTE_FREQUENCIES ''A#'' = Some 466.16"
  "map_of NOTE_FREQUENCIES ''B'' = Some 493.88"
  by (simp_all add: NOTE_FREQUENCIES_def)

lemma shift_up3:
  "shiftNoteBySemitones ''C'' 3 = ''D#''"
  "shiftNoteBySemitones ''C#'' 3 = ''E''"
  "shiftNoteBySemitones ''D'' 3 = ''F''"
  "shiftNoteBySemitones ''D#'' 3 = ''F#''"
  "shiftNoteBySemitones ''E'' 3 = ''G''"
  "shiftNoteBySemitones ''F'' 3 = ''G#''"
  "shiftNoteBySemitones ''F#'' 3 = ''A''"
  "shiftNoteBySemitones ''G'' 3 = ''A#''"
  "shiftNoteBySemitones ''G#'' 3 = ''B''"
  "shiftNoteBySemitones ''A'' 3 = ''C''"
  "shiftNoteBySemitones ''A#'' 3 = ''C#''"
  "shiftNoteBySemitones ''B'' 3 = ''D''"
  by (simp_all add: shiftNoteBySemitones_def noteOrder_def js_rem_def indexOf_def)

lemma shift_down3:
  "shiftNoteBySemitones ''C'' (- 3) = ''A''"
  "shiftNoteBySemitones ''C#'' (- 3) = ''A#''"
  "shiftNoteBySemitones ''D'' (- 3) = ''B''"
  "shiftNoteBySemitones ''D#'' (- 3) = ''C''"
  "shiftNoteBySemitones ''E'' (- 3) = ''C#''"
  "shiftNoteBySemitones ''F'' (- 3) = ''D''"
  "shiftNoteBySemitones ''F#'' (- 3) = ''D#''"
  "shiftNoteBySemitones ''G'' (- 3) = ''E''"
  "shiftNoteBySemitones ''G#'' (- 3) = ''F''"
  "shiftNoteBySemitones ''A'' (- 3) = ''F#''"
  "shiftNoteBySemitones ''A#'' (- 3) = ''G''"
  "shiftNoteBySemitones ''B'' (- 3) = ''G#''"
  by (simp_all add: shiftNoteBySemitones_def noteOrder_def js_rem_def indexOf_def)

lemma wheelElements_eq:
  "wheelElements =
    [(440, ''A'', Minor), (261.63, ''C'', Major), (329.63, ''E'', Minor), (392, ''G'', Major),
     (493.88, ''B'', Minor), (293.66, ''D'', Major), (369.99, ''F#'', Minor), (440, ''A'', Major),
     (277.18, ''C#'', Minor), (329.63, ''E'', Major), (415.30, ''G#'', Minor), (493.88, ''B'', Major),
     (311.13, ''D#'', Minor), (369.99, ''F#'', Major), (466.16, ''A#'', Minor), (277.18, ''C#'', Major),
     (349.23, ''F'', Minor), (415.30, ''G#'', Major), (261.63, ''C'', Minor), (311.13, ''D#'', Major),
     (392, ''G'', Minor), (466.16, ''A#'', Major), (293.66, ''D'', Minor), (349.23, ''F'', Major)]"
  unfolding wheelElements_def circleOfFifthsOrder_def
  by (simp add: shift_up3 NOTE_FREQUENCIES_lookup Let_def del: One_nat_def)

lemma pianoKeys_eq:
  "pianoKeys =
     [261.63, 293.66, 329.63, 349.23, 392, 440, 493.88, 277.18, 311.13, 369.99, 415.3, 466.16]"
  by (simp add: pianoKeys_def noteOrder_def isBlack_def NOTE_FREQUENCIES_lookup)

lemma getNoteFromFrequency_table:
  "\<forall>(n, f) \<in> set NOTE_FREQUENCIES. getNoteFromFrequency f = Some n"
  by (simp add: getNoteFromFrequency_def NOTE_FREQUENCIES_def nearDouble_far nearDouble_near)

text \<open>
  Rounding decides at the edge of the window: the double of \<^verbatim>\<open>369.99\<close> lies a little above
  369.99, so its distance to 370 is below the double of \<^verbatim>\<open>0.01\<close> and \<^verbatim>\<open>getNoteFromFrequency(370)\<close>
  is \<^verbatim>\<open>'F#'\<close>. A frequency at least 0.011 away from every entry of the table has no note.
\<close>

lemma nearDouble_at_370: "nearDouble 369.99 370"
proof -
  have a: "toDouble 369.99 = 1627233228643369 / 2 ^ 42"
    by (subst toDouble_eval [where e = 8]) (simp_all add: roundTiesToEven_def)
  have b: "toDouble 370 = 370"
    by (subst toDouble_eval [where e = 8]) (simp_all add: roundTiesToEven_def)
  have c: "toDouble (1627233228643369 / 2 ^ 42 - 370) = 1627233228643369 / 2 ^ 42 - 370"
    by (subst toDouble_eval [where e = "- 7"])
       (simp_all add: power_int_minus roundTiesToEven_def)
  show ?thesis
    unfolding nearDouble_def a b c using toDouble_hundredth by simp
qed

lemma nearDouble_at_293_67: "nearDouble 293.66 293.67"
proof -
  have a: "toDouble 293.66 = 5166121353803203 / 2 ^ 44"
    by (subst toDouble_eval [where e = 8]) (simp_all add: roundTiesToEven_def)
  have b: "toDouble 293.67 = 5166297275663647 / 2 ^ 44"
    by (subst toDouble_eval [where e = 8]) (simp_all add: roundTiesToEven_def)
  have c: "toDouble (5166121353803203 / 2 ^ 44 - 5166297275663647 / 2 ^ 44) = 5166121353803203 / 2 ^ 44 - 5166297275663647 / 2 ^ 44"
    by (subst toDouble_eval [where e = "- 7"])
       (simp_all add: power_int_minus roundTiesToEven_def)
  show ?thesis
    unfolding nearDouble_def a b c using toDouble_hundredth by simp
qed

lemma nearDouble_at_349_24: "nearDouble 349.23 349.24"
proof -
  have a: "toDouble 349.23 = 767964891536425 / 2 ^ 41"
    by (subst toDouble_eval [where e = 8]) (simp_all add: roundTiesToEven_def)
  have b: "toDouble 349.24 = 1535973763537961 / 2 ^ 42"
    by (subst toDouble_eval [where e = 8]) (simp_all add: roundTiesToEven_def)
  have c: "toDouble (767964891536425 / 2 ^ 41 - 1535973763537961 / 2 ^ 42) = 767964891536425 / 2 ^ 41 - 1535973763537961 / 2 ^ 42"
    by (subst toDouble_eval [where e = "- 7"])
       (simp_all add: power_int_minus roundTiesToEven_def)
  show ?thesis
    unfolding nearDouble_def a b c using toDouble_hundredth by simp
qed

lemma nearDouble_at_415_31: "nearDouble 415.30 415.31"
proof -
  have a: "toDouble 415.30 = 7306034864245965 / 2 ^ 44"
    by (subst toDouble_eval [where e = 8]) (simp_all add: roundTiesToEven_def)
  have b: "toDouble 415.31 = 7306210786106409 / 2 ^ 44"
    by (subst toDouble_eval [where e = 8]) (simp_all add: roundTiesToEven_def)
  have c: "toDouble (7306034864245965 / 2 ^ 44 - 7306210786106409 / 2 ^ 44) = 7306034864245965 / 2 ^ 44 - 7306210786106409 / 2 ^ 44"
    by (subst toDouble_eval [where e = "- 7"])
       (simp_all add: power_int_minus roundTiesToEven_def)
  show ?thesis
    unfolding nearDouble_def a b c using toDouble_hundredth by simp
qed

lemma nearDouble_at_466_17: "nearDouble 466.16 466.17"
proof -
  have a: "toDouble 466.16 = 8200773446464963 / 2 ^ 44"
    by (subst toDouble_eval [where e = 8]) (simp_all add: roundTiesToEven_def)
  have b: "toDouble 466.17 = 8200949368325407 / 2 ^ 44"
    by (subst toDouble_eval [where e = 8]) (simp_all add: roundTiesToEven_def)
  have c: "toDouble (8200773446464963 / 2 ^ 44 - 8200949368325407 / 2 ^ 44) = 8200773446464963 / 2 ^ 44 - 8200949368325407 / 2 ^ 44"
    by (subst toDouble_eval [where e = "- 7"])
       (simp_all add: power_int_minus roundTiesToEven_def)
  show ?thesis
    unfolding nearDouble_def a b c using toDouble_hundredth by simp
qed

lemma getNoteFromFrequency_rounding:
  "getNoteFromFrequency 370 = Some ''F#''"
  "getNoteFromFrequency 293.67 = Some ''D''"
  "getNoteFromFrequency 349.24 = Some ''F''"
  "getNoteFromFrequency 415.31 = Some ''G#''"
  "getNoteFromFrequency 466.17 = Some ''A#''"
  using nearDouble_at_370 nearDouble_at_293_67 nearDouble_at_349_24 nearDouble_at_415_31
    nearDouble_at_466_17
  by (simp_all add: getNoteFromFrequency_def NOTE_FREQUENCIES_def nearDouble_far)

lemma firstNoteNear_far:
  "list_all (\<lambda>(n, nf). 1 \<le> nf \<and> nf \<le> 1000 \<and> 0.011 \<le> \<bar>nf - f\<bar>) table
     \<Longrightarrow> firstNoteNear table f = None"
  by (induction table) (auto simp: nearDouble_far)

lemma getNoteFromFrequency_far:
  assumes "list_all (\<lambda>(n, nf). 0.011 \<le> \<bar>nf - f\<bar>) NOTE_FREQUENCIES"
  shows "getNoteFromFrequency f = None"
proof -
  have "list_all (\<lambda>(n, nf). 1 \<le> nf \<and> nf \<le> (1000::real)) NOTE_FREQUENCIES"
    by (simp add: NOTE_FREQUENCIES_def)
  with assms have "list_all (\<lambda>(n, nf). 1 \<le> nf \<and> nf \<le> 1000 \<and> 0.011 \<le> \<bar>nf - f\<bar>)
      NOTE_FREQUENCIES"
    by (auto simp: list_all_iff)
  then show ?thesis
    unfolding getNoteFromFrequency_def by (rule firstNoteNear_far)
qed

lemma firstNoteNear_hit:
  "firstNoteNear table f = Some n \<Longrightarrow> \<exists>nf. (n, nf) \<in> set table \<and> nearDouble nf f"
  by (induction table) (auto split: if_splits)

subsection \<open>Lists\<close>

lemma set_spliceFirst: "set (spliceFirst P xs) \<subseteq> set xs"
  by (induction xs) auto

lemma distinct_map_spliceFirst:
  "distinct (map g xs) \<Longrightarrow> distinct (map g (spliceFirst P xs))"
proof (induction xs)
  case Nil
  then show ?case by simp
next
  case (Cons x xs)
  have "g x \<notin> g ` set (spliceFirst P xs)"
    using Cons.prems set_spliceFirst [of P xs] by auto
  with Cons show ?case by simp
qed

lemma spliceFirst_none: "\<forall>x \<in> set xs. \<not> P x \<Longrightarrow> spliceFirst P xs = xs"
  by (induction xs) auto

lemma spliceFirst_filter:
  "distinct (map g xs) \<Longrightarrow> spliceFirst (\<lambda>x. g x = n) xs = filter (\<lambda>x. g x \<noteq> n) xs"
proof (induction xs)
  case Nil
  then show ?case by simp
next
  case (Cons x xs)
  show ?case
  proof (cases "g x = n")
    case True
    with Cons.prems have "\<forall>y \<in> set xs. g y \<noteq> n" by (auto simp: image_iff)
    then have "filter (\<lambda>x. g x \<noteq> n) xs = xs" by (simp add: filter_id_conv)
    with True show ?thesis by simp
  next
    case False
    with Cons show ?thesis by simp
  qed
qed

lemma fold_keeps:
  assumes "P s" and "\<And>x t. x \<in> set xs \<Longrightarrow> P t \<Longrightarrow> P (f x t)"
  shows "P (fold f xs s)"
  using assms by (induction xs arbitrary: s) simp_all

lemma set_Object_entries: "set (Object_entries obj) = set obj"
  by (auto simp: Object_entries_def)

lemma length_Object_entries: "length (Object_entries obj) = length obj"
  by (simp add: Object_entries_def sum_length_filter_compl)

lemma length_Object_keys: "length (Object_keys obj) = length obj"
  by (simp add: Object_keys_def length_Object_entries)

lemma set_Object_keys: "set (Object_keys obj) = fst ` set obj"
  by (simp add: Object_keys_def set_Object_entries)

subsection \<open>stopNote\<close>

lemma stopNote_frame [simp]:
  "octaveShift (stopNote f s) = octaveShift s"
  "currentTime (stopNote f s) = currentTime s"
  "MASTER_GAIN (stopNote f s) = MASTER_GAIN s"
  "masterGainNode (stopNote f s) = masterGainNode s"
  "lastPlayedNote (stopNote f s) = lastPlayedNote s"
  "majorOnTop (stopNote f s) = majorOnTop s"
  "isMouseDown (stopNote f s) = isMouseDown s"
  "currentPlayingFrequency (stopNote f s) = currentPlayingFrequency s"
  "activeKeys (stopNote f s) = activeKeys s"
  "notationType (stopNote f s) = notationType s"
  "useFlats (stopNote f s) = useFlats s"
  by (simp_all add: stopNote_def Let_def split: option.splits)

lemma activeOscillators_stopNote:
  "activeOscillators (stopNote f s) = AList.delete f (activeOscillators s)"
proof (cases "map_of (activeOscillators s) f")
  case None
  then have "f \<notin> fst ` set (activeOscillators s)" by (simp add: map_of_eq_None_iff)
  with None show ?thesis by (simp add: stopNote_def)
next
  case (Some v)
  then show ?thesis by (simp add: stopNote_def Let_def split: option.splits)
qed

lemma heldNotes_stopNote:
  "heldNotes (stopNote f s) =
     (case map_of (activeOscillators s) f of
        None \<Rightarrow> heldNotes s
      | Some v \<Rightarrow>
          (case getNoteFromFrequency (if baseFrequency v \<noteq> 0 then baseFrequency v else f) of
             None \<Rightarrow> heldNotes s
           | Some n \<Rightarrow> spliceFirst (\<lambda>note. note_of note = n) (heldNotes s)))"
  by (simp add: stopNote_def Let_def split: option.splits)

lemma stopNote_when_present:
  "(if map_of (activeOscillators s) k \<noteq> None then stopNote k s else s) = stopNote k s"
  by (simp add: stopNote_def)

lemma set_heldNotes_stopNote: "set (heldNotes (stopNote f s)) \<subseteq> set (heldNotes s)"
  by (auto simp: heldNotes_stopNote split: option.splits dest: subsetD [OF set_spliceFirst])

lemma distinct_heldNotes_stopNote:
  "distinct (map note_of (heldNotes s)) \<Longrightarrow> distinct (map note_of (heldNotes (stopNote f s)))"
  by (simp add: heldNotes_stopNote distinct_map_spliceFirst split: option.splits)

subsection \<open>playNote\<close>

lemma playNote_alt:
  "playNote f a p s =
     (let k = (if a then f * 2 powi octaveShift s else f);
          s1 = stopNote k s;
          s2 = s1\<lparr>activeOscillators :=
                 AList.update k
                   \<lparr>oscillator = newOscillator k, gainNode = newGain (currentTime s1),
                    baseFrequency = f, isPrimary = p, chordType = None\<rparr>
                   (activeOscillators s1)\<rparr>
      in case getNoteFromFrequency f of
           None \<Rightarrow> s2
         | Some n \<Rightarrow>
             s2\<lparr>heldNotes := spliceFirst (\<lambda>note. note_of note = n) (heldNotes s2) @ [Plain n],
                lastPlayedNote := Some (Plain n)\<rparr>)"
  unfolding playNote_def stopNote_when_present ..

lemma playNoteFromWheel_alt:
  "playNoteFromWheel f n t s =
     (let k = f * 2 powi octaveShift s;
          s1 = stopNote k s;
          s2 = s1\<lparr>activeOscillators :=
                 AList.update k
                   \<lparr>oscillator = newOscillator k, gainNode = newGain (currentTime s1),
                    baseFrequency = f, isPrimary = True, chordType = Some t\<rparr>
                   (activeOscillators s1)\<rparr>
      in s2\<lparr>heldNotes := spliceFirst (\<lambda>note. note_of note = n) (heldNotes s2) @ [Wheel n t],
            lastPlayedNote := Some (Wheel n t)\<rparr>)"
  unfolding playNoteFromWheel_def stopNote_when_present ..

lemma playNote_frame [simp]:
  "octaveShift (playNote f a p s) = octaveShift s"
  "currentTime (playNote f a p s) = currentTime s"
  "MASTER_GAIN (playNote f a p s) = MASTER_GAIN s"
  "masterGainNode (playNote f a p s) = masterGainNode s"
  "majorOnTop (playNote f a p s) = majorOnTop s"
  "isMouseDown (playNote f a p s) = isMouseDown s"
  "currentPlayingFrequency (playNote f a p s) = currentPlayingFrequency s"
  "activeKeys (playNote f a p s) = activeKeys s"
  "notationType (playNote f a p s) = notationType s"
  "useFlats (playNote f a p s) = useFlats s"
  by (simp_all add: playNote_alt Let_def split: option.splits)

lemma activeOscillators_playNote:
  "activeOscillators (playNote f a p s) =
     (let k = (if a then f * 2 powi octaveShift s else f)
      in AList.update k
           \<lparr>oscillator = newOscillator k, gainNode = newGain (currentTime s),
            baseFrequency = f, isPrimary = p, chordType = None\<rparr>
           (AList.delete k (activeOscillators s)))"
  by (simp add: playNote_alt Let_def activeOscillators_stopNote
      split: option.splits)

lemma heldNotes_playNote:
  "heldNotes (playNote f a p s) =
     (let k = (if a then f * 2 powi octaveShift s else f)
      in case getNoteFromFrequency f of
           None \<Rightarrow> heldNotes (stopNote k s)
         | Some n \<Rightarrow> spliceFirst (\<lambda>note. note_of note = n) (heldNotes (stopNote k s)) @ [Plain n])"
  by (simp add: playNote_alt Let_def split: option.splits)

lemma lastPlayedNote_playNote:
  "lastPlayedNote (playNote f a p s) =
     (case getNoteFromFrequency f of None \<Rightarrow> lastPlayedNote s | Some n \<Rightarrow> Some (Plain n))"
  by (simp add: playNote_alt Let_def split: option.splits)

lemma playNoteFromWheel_frame [simp]:
  "octaveShift (playNoteFromWheel f n t s) = octaveShift s"
  "currentTime (playNoteFromWheel f n t s) = currentTime s"
  "MASTER_GAIN (playNoteFromWheel f n t s) = MASTER_GAIN s"
  "masterGainNode (playNoteFromWheel f n t s) = masterGainNode s"
  "majorOnTop (playNoteFromWheel f n t s) = majorOnTop s"
  "isMouseDown (playNoteFromWheel f n t s) = isMouseDown s"
  "currentPlayingFrequency (playNoteFromWheel f n t s) = currentPlayingFrequency s"
  "activeKeys (playNoteFromWheel f n t s) = activeKeys s"
  "notationType (playNoteFromWheel f n t s) = notationType s"
  "useFlats (playNoteFromWheel f n t s) = useFlats s"
  by (simp_all add: playNoteFromWheel_alt Let_def)

lemma activeOscillators_playNoteFromWheel:
  "activeOscillators (playNoteFromWheel f n t s) =
     (let k = f * 2 powi octaveShift s
      in AList.update k
           \<lparr>oscillator = newOscillator k, gainNode = newGain (currentTime s),
            baseFrequency = f, isPrimary = True, chordType = Some t\<rparr>
           (AList.delete k (activeOscillators s)))"
  by (simp add: playNoteFromWheel_alt Let_def activeOscillators_stopNote)

lemma heldNotes_playNoteFromWheel:
  "heldNotes (playNoteFromWheel f n t s) =
     spliceFirst (\<lambda>note. note_of note = n) (heldNotes (stopNote (f * 2 powi octaveShift s) s))
       @ [Wheel n t]"
  by (simp add: playNoteFromWheel_alt Let_def)

lemma lastPlayedNote_playNoteFromWheel:
  "lastPlayedNote (playNoteFromWheel f n t s) = Some (Wheel n t)"
  by (simp add: playNoteFromWheel_alt Let_def)

subsection \<open>Invariants: the core operations\<close>

lemma ledger_distinct_stopNote: "ledger_distinct s \<Longrightarrow> ledger_distinct (stopNote f s)"
  by (simp add: ledger_distinct_def distinct_heldNotes_stopNote)

lemma notin_spliceFirst:
  "distinct (map g xs) \<Longrightarrow> n \<notin> g ` set (spliceFirst (\<lambda>x. g x = n) xs)"
  by (auto simp: spliceFirst_filter)

lemma ledger_distinct_push:
  assumes "distinct (map note_of xs)" and "note_of h = n"
  shows "distinct (map note_of (spliceFirst (\<lambda>x. note_of x = n) xs @ [h]))"
  using assms notin_spliceFirst [of note_of xs n] distinct_map_spliceFirst [of note_of xs]
  by simp

lemma ledger_distinct_playNote: "ledger_distinct s \<Longrightarrow> ledger_distinct (playNote f a p s)"
proof -
  assume "ledger_distinct s"
  then have d: "distinct (map note_of (heldNotes (stopNote k s)))" for k
    by (simp add: ledger_distinct_def distinct_heldNotes_stopNote)
  show ?thesis
    unfolding ledger_distinct_def heldNotes_playNote Let_def
    by (cases "getNoteFromFrequency f") (simp_all add: d ledger_distinct_push del: map_append)
qed

lemma ledger_distinct_playNoteFromWheel:
  "ledger_distinct s \<Longrightarrow> ledger_distinct (playNoteFromWheel f n t s)"
proof -
  assume "ledger_distinct s"
  then have d: "distinct (map note_of (heldNotes (stopNote k s)))" for k
    by (simp add: ledger_distinct_def distinct_heldNotes_stopNote)
  show ?thesis
    unfolding ledger_distinct_def heldNotes_playNoteFromWheel
    by (simp add: d ledger_distinct_push del: map_append)
qed

lemma keys_distinct_stopNote: "keys_distinct s \<Longrightarrow> keys_distinct (stopNote f s)"
  by (simp add: keys_distinct_def activeOscillators_stopNote distinct_delete)

lemma keys_distinct_playNote: "keys_distinct s \<Longrightarrow> keys_distinct (playNote f a p s)"
  by (simp add: keys_distinct_def activeOscillators_playNote Let_def distinct_update distinct_delete)

lemma keys_distinct_playNoteFromWheel:
  "keys_distinct s \<Longrightarrow> keys_distinct (playNoteFromWheel f n t s)"
  by (simp add: keys_distinct_def activeOscillators_playNoteFromWheel Let_def distinct_update
      distinct_delete)

lemma list_all_delete: "list_all P al \<Longrightarrow> list_all P (AList.delete k al)"
  by (simp add: AList.delete_eq list_all_iff)

lemma list_all_update: "list_all P al \<Longrightarrow> P (k, v) \<Longrightarrow> list_all P (AList.update k v al)"
  by (induction al) auto

lemma sounding_consistent_stopNote:
  "sounding_consistent s \<Longrightarrow> sounding_consistent (stopNote f s)"
  by (simp add: sounding_consistent_def activeOscillators_stopNote list_all_delete)

lemma sounding_consistent_playNote:
  "sounding_consistent s \<Longrightarrow> sounding_consistent (playNote f True p s)"
  by (simp add: sounding_consistent_def activeOscillators_playNote list_all_delete list_all_update
      Let_def)

lemma sounding_consistent_playNoteFromWheel:
  "sounding_consistent s \<Longrightarrow> sounding_consistent (playNoteFromWheel f n t s)"
  by (simp add: sounding_consistent_def activeOscillators_playNoteFromWheel list_all_delete
      list_all_update Let_def)

lemma shift_in_range_cong: "octaveShift s' = octaveShift s \<Longrightarrow> shift_in_range s' = shift_in_range s"
  by (simp add: shift_in_range_def)

lemma engine_inv_stopNote: "engine_inv s \<Longrightarrow> engine_inv (stopNote f s)"
  by (simp add: engine_inv_def ledger_distinct_stopNote keys_distinct_stopNote
      sounding_consistent_stopNote shift_in_range_def)

lemma engine_inv_playNote: "engine_inv s \<Longrightarrow> engine_inv (playNote f True p s)"
  by (simp add: engine_inv_def ledger_distinct_playNote keys_distinct_playNote
      sounding_consistent_playNote shift_in_range_def)

lemma engine_inv_playNoteFromWheel: "engine_inv s \<Longrightarrow> engine_inv (playNoteFromWheel f n t s)"
  by (simp add: engine_inv_def ledger_distinct_playNoteFromWheel keys_distinct_playNoteFromWheel
      sounding_consistent_playNoteFromWheel shift_in_range_def)

subsection \<open>Stopping every voice\<close>

lemma activeOscillators_fold_stopNote:
  "activeOscillators (fold stopNote ks s) = filter (\<lambda>e. fst e \<notin> set ks) (activeOscillators s)"
proof (induction ks arbitrary: s)
  case Nil
  then show ?case by simp
next
  case (Cons k ks)
  show ?case
    by (auto simp: Cons.IH activeOscillators_stopNote AList.delete_eq intro!: filter_cong)
qed

lemma fold_stopNote_all:
  "fst ` set (activeOscillators s) \<subseteq> set ks \<Longrightarrow> activeOscillators (fold stopNote ks s) = []"
  by (auto simp: activeOscillators_fold_stopNote filter_empty_conv)

lemma fold_stopNote_frame [simp]:
  "octaveShift (fold stopNote ks s) = octaveShift s"
  "lastPlayedNote (fold stopNote ks s) = lastPlayedNote s"
  "MASTER_GAIN (fold stopNote ks s) = MASTER_GAIN s"
  by (induction ks arbitrary: s) simp_all

lemma ledger_distinct_fold_stopNote:
  "ledger_distinct s \<Longrightarrow> ledger_distinct (fold stopNote ks s)"
  by (rule fold_keeps) (simp_all add: ledger_distinct_stopNote)

lemma heldNotes_fold_stopNote_Nil:
  "heldNotes s = [] \<Longrightarrow> heldNotes (fold stopNote ks s) = []"
proof (induction ks arbitrary: s)
  case Nil
  then show ?case by simp
next
  case (Cons k ks)
  have "heldNotes (stopNote k s) = []"
    using Cons.prems by (simp add: heldNotes_stopNote split: option.splits)
  then show ?case by (simp add: Cons.IH)
qed

subsection \<open>Re-triggering after an octave change\<close>

lemma restartNote_cases:
  "restartNote x s = s
   \<or> (\<exists>f n t. restartNote x s = playNoteFromWheel f n t s)
   \<or> (\<exists>f. restartNote x s = playNote f True True s)"
  by (auto simp: restartNote_def split: prod.splits option.splits held_note.splits)

lemma restart_inv_restartNote: "restart_inv c s \<Longrightarrow> restart_inv c (restartNote x s)"
  using restartNote_cases [of x s]
  by (auto simp: restart_inv_def ledger_distinct_playNote ledger_distinct_playNoteFromWheel
      keys_distinct_playNote keys_distinct_playNoteFromWheel sounding_consistent_playNote
      sounding_consistent_playNoteFromWheel)

lemma shiftActiveNotes_stop_phase:
  "fold (\<lambda>note. stopNote (fst note))
     (map (\<lambda>(actualFreq, data). (actualFreq, baseFrequency data, data)) (Object_entries obj)) s
   = fold stopNote (Object_keys obj) s"
proof -
  have "map fst (map (\<lambda>(actualFreq, data). (actualFreq, baseFrequency data, data))
          (Object_entries obj)) = Object_keys obj"
    by (simp add: Object_keys_def case_prod_unfold comp_def)
  then show ?thesis
    by (metis (no_types, lifting) List.fold_cong comp_def fold_map)
qed

lemma shiftActiveNotes_alt:
  "shiftActiveNotes a b s =
     fold restartNote
       (map (\<lambda>(actualFreq, data). (actualFreq, baseFrequency data, data))
          (Object_entries (activeOscillators s)))
       (fold stopNote (Object_keys (activeOscillators s)) s)"
  by (simp add: shiftActiveNotes_def Let_def shiftActiveNotes_stop_phase)

lemma stop_all_registry:
  "activeOscillators (fold stopNote (Object_keys (activeOscillators s)) s) = []"
  by (rule fold_stopNote_all) (simp add: set_Object_keys)

lemma restart_inv_shiftActiveNotes:
  assumes "ledger_distinct s"
  shows "restart_inv (octaveShift s) (shiftActiveNotes a b s)"
proof -
  let ?s1 = "fold stopNote (Object_keys (activeOscillators s)) s"
  have "restart_inv (octaveShift s) ?s1"
    using assms
    by (simp add: restart_inv_def ledger_distinct_fold_stopNote keys_distinct_def
        sounding_consistent_def stop_all_registry)
  then show ?thesis
    unfolding shiftActiveNotes_alt
    by (rule fold_keeps) (rule restart_inv_restartNote)
qed

lemma shiftActiveNotes_frame [simp]:
  "octaveShift (shiftActiveNotes a b s) = octaveShift s"
proof -
  have "octaveShift (restartNote x t) = octaveShift t" for x t
    using restartNote_cases [of x t] by auto
  then have "octaveShift (fold restartNote ns t) = octaveShift t" for ns t
    by (induction ns arbitrary: t) simp_all
  then show ?thesis by (simp add: shiftActiveNotes_alt)
qed

subsection \<open>Invariants: the handlers\<close>

lemma engine_inv_other_fields [simp]:
  "engine_inv (s\<lparr>isMouseDown := b\<rparr>) = engine_inv s"
  "engine_inv (s\<lparr>currentPlayingFrequency := c\<rparr>) = engine_inv s"
  "engine_inv (s\<lparr>activeKeys := ks\<rparr>) = engine_inv s"
  "engine_inv (s\<lparr>majorOnTop := b\<rparr>) = engine_inv s"
  "engine_inv (s\<lparr>notationType := nt\<rparr>) = engine_inv s"
  "engine_inv (s\<lparr>useFlats := b\<rparr>) = engine_inv s"
  "engine_inv (s\<lparr>MASTER_GAIN := g, masterGainNode := m\<rparr>) = engine_inv s"
  by (simp_all add: engine_inv_def ledger_distinct_def keys_distinct_def shift_in_range_def
      sounding_consistent_def)

lemma engine_inv_initialApp: "engine_inv (initialApp st)"
  by (simp add: engine_inv_def ledger_distinct_def keys_distinct_def shift_in_range_def
      sounding_consistent_def initialApp_def MIN_OCTAVE_SHIFT_def MAX_OCTAVE_SHIFT_def)

lemma engine_inv_stopCurrentPlaying:
  "engine_inv s \<Longrightarrow> engine_inv (stopCurrentPlaying f s)"
  by (simp add: stopCurrentPlaying_def engine_inv_stopNote split: option.splits)

lemma stopCurrentPlaying_frame [simp]:
  "isMouseDown (stopCurrentPlaying f s) = isMouseDown s"
  "majorOnTop (stopCurrentPlaying f s) = majorOnTop s"
  "octaveShift (stopCurrentPlaying f s) = octaveShift s"
  by (simp_all add: stopCurrentPlaying_def split: option.splits)

lemma engine_inv_wheel:
  assumes "engine_inv s"
  shows "engine_inv (wheel_mousedown f n t s)" "engine_inv (wheel_mouseenter f n t s)"
    "engine_inv (wheel_touchstart f n t s)" "engine_inv (wheel_touchend f n t s)"
  using assms
  by (simp_all add: wheel_mousedown_def wheel_mouseenter_def wheel_touchstart_def
      wheel_touchend_def Let_def engine_inv_playNoteFromWheel engine_inv_stopCurrentPlaying
      engine_inv_stopNote)

lemma engine_inv_piano:
  assumes "engine_inv s"
  shows "engine_inv (piano_mousedown f s)" "engine_inv (piano_mouseenter f s)"
    "engine_inv (piano_touchstart f s)" "engine_inv (piano_touchend f s)"
  using assms
  by (simp_all add: piano_mousedown_def piano_mouseenter_def piano_touchstart_def
      piano_touchend_def Let_def engine_inv_playNote engine_inv_stopCurrentPlaying
      engine_inv_stopNote)

lemma engine_inv_document_mouseup: "engine_inv s \<Longrightarrow> engine_inv (document_mouseup s)"
  by (simp add: document_mouseup_def Let_def engine_inv_stopNote split: option.splits)

lemma engine_inv_after_shift:
  assumes "ledger_distinct s" and "shift_in_range s"
  shows "engine_inv (shiftActiveNotes a b s)"
  using restart_inv_shiftActiveNotes [OF assms(1), of a b] assms(2)
  by (simp add: restart_inv_def engine_inv_def shift_in_range_def)

lemma engine_inv_octaveDown:
  "engine_inv s \<Longrightarrow> octaveShift s > MIN_OCTAVE_SHIFT \<Longrightarrow> engine_inv (octaveDown s)"
  unfolding octaveDown_def Let_def
  by (rule engine_inv_after_shift)
     (simp_all add: engine_inv_def ledger_distinct_def shift_in_range_def)

lemma engine_inv_octaveUp:
  "engine_inv s \<Longrightarrow> octaveShift s < MAX_OCTAVE_SHIFT \<Longrightarrow> engine_inv (octaveUp s)"
  unfolding octaveUp_def Let_def
  by (rule engine_inv_after_shift)
     (simp_all add: engine_inv_def ledger_distinct_def shift_in_range_def)

lemma engine_inv_octave_clicks:
  assumes "engine_inv s"
  shows "engine_inv (octaveDown_click s)" "engine_inv (octaveUp_click s)"
    "engine_inv (octaveDisplay_click s)"
proof -
  show "engine_inv (octaveDown_click s)" "engine_inv (octaveUp_click s)"
    using assms by (simp_all add: octaveDown_click_def octaveUp_click_def engine_inv_octaveDown
        engine_inv_octaveUp)
  show "engine_inv (octaveDisplay_click s)"
    unfolding octaveDisplay_click_def Let_def
    using assms
    by (intro engine_inv_after_shift)
       (simp_all add: engine_inv_def ledger_distinct_def shift_in_range_def
         MIN_OCTAVE_SHIFT_def MAX_OCTAVE_SHIFT_def)
qed

lemma engine_inv_document_keydown: "engine_inv s \<Longrightarrow> engine_inv (document_keydown e s)"
  by (simp add: document_keydown_def Let_def engine_inv_octaveDown engine_inv_octaveUp
      engine_inv_playNote split: option.splits)

lemma engine_inv_document_keyup: "engine_inv s \<Longrightarrow> engine_inv (document_keyup e s)"
  by (simp add: document_keyup_def Let_def engine_inv_stopNote split: option.splits)

lemma window_blur_registry: "activeOscillators (window_blur s) = []"
proof -
  let ?s1 = "s\<lparr>isMouseDown := False, currentPlayingFrequency := None,
                 activeKeys := {}, heldNotes := []\<rparr>"
  have "activeOscillators (fold stopNote (Object_keys (activeOscillators ?s1)) ?s1) = []"
    by (rule stop_all_registry)
  then show ?thesis by (simp add: window_blur_def Let_def)
qed

lemma window_blur_ledger: "heldNotes (window_blur s) = []"
  by (simp add: window_blur_def Let_def heldNotes_fold_stopNote_Nil)

lemma window_blur_frame [simp]:
  "octaveShift (window_blur s) = octaveShift s"
  "lastPlayedNote (window_blur s) = lastPlayedNote s"
  by (simp_all add: window_blur_def Let_def)

lemma engine_inv_window_blur: "engine_inv s \<Longrightarrow> engine_inv (window_blur s)"
  by (simp add: engine_inv_def ledger_distinct_def keys_distinct_def shift_in_range_def
      sounding_consistent_def window_blur_registry window_blur_ledger)

lemma engine_inv_options:
  assumes "engine_inv s"
  shows "engine_inv (majorOnTop_change b s)" "engine_inv (notation_change b s)"
    "engine_inv (flats_change b s)" "engine_inv (volume_input v s)"
  using assms
  by (simp_all add: majorOnTop_change_def notation_change_def flats_change_def volume_input_def)

lemma engine_inv_fire: "engine_inv s \<Longrightarrow> engine_inv (fire e s)"
  by (cases e)
     (simp_all add: onWheel_def onPiano_def engine_inv_wheel engine_inv_piano
       engine_inv_document_mouseup engine_inv_document_keydown engine_inv_document_keyup
       engine_inv_window_blur engine_inv_octave_clicks engine_inv_options split: prod.splits)

lemma engine_inv_elapse: "engine_inv s \<Longrightarrow> engine_inv (elapse t level due s)"
  by (simp add: engine_inv_def ledger_distinct_def keys_distinct_def shift_in_range_def
      sounding_consistent_def elapse_def list_all_iff case_prod_unfold comp_def)

lemma reachable_engine_inv: "reachable s \<Longrightarrow> engine_inv s"
  by (induction rule: reachable.induct)
     (simp_all add: engine_inv_initialApp engine_inv_fire engine_inv_elapse)

subsection \<open>Voices and their keys\<close>

lemma powi2_nonzero [simp]: "(2::real) powi n \<noteq> 0"
  by simp

lemma consistent_base:
  assumes "sounding_consistent s"
    and "map_of (activeOscillators s) (f * 2 powi octaveShift s) = Some v"
  shows "baseFrequency v = f"
proof -
  from assms(2) have "(f * 2 powi octaveShift s, v) \<in> set (activeOscillators s)"
    by (rule map_of_SomeD)
  with assms(1) have "f * 2 powi octaveShift s = baseFrequency v * 2 powi octaveShift s"
    by (auto simp: sounding_consistent_def list_all_iff)
  then show ?thesis by simp
qed

lemma heldNotes_stopNote_consistent:
  assumes "sounding_consistent s"
  shows "heldNotes (stopNote (f * 2 powi octaveShift s) s) =
     (case map_of (activeOscillators s) (f * 2 powi octaveShift s) of
        None \<Rightarrow> heldNotes s
      | Some v \<Rightarrow>
          (case getNoteFromFrequency f of
             None \<Rightarrow> heldNotes s
           | Some n \<Rightarrow> spliceFirst (\<lambda>note. note_of note = n) (heldNotes s)))"
proof (cases "map_of (activeOscillators s) (f * 2 powi octaveShift s)")
  case None
  then show ?thesis by (simp add: heldNotes_stopNote)
next
  case (Some v)
  have b: "baseFrequency v = f" using assms Some by (rule consistent_base)
  have "(if baseFrequency v \<noteq> 0 then baseFrequency v else f * 2 powi octaveShift s) = f"
    using b by simp
  with Some show ?thesis by (simp add: heldNotes_stopNote)
qed

lemma spliceFirst_filter_idem:
  "spliceFirst (\<lambda>x. g x = n) (filter (\<lambda>x. g x \<noteq> n) xs) = filter (\<lambda>x. g x \<noteq> n) xs"
  by (rule spliceFirst_none) simp

lemma engage_ledger:
  assumes "ledger_distinct s" and "sounding_consistent s" and "getNoteFromFrequency f = Some n"
  shows "spliceFirst (\<lambda>note. note_of note = n) (heldNotes (stopNote (f * 2 powi octaveShift s) s))
         = filter (\<lambda>h. note_of h \<noteq> n) (heldNotes s)"
proof -
  have d: "distinct (map note_of (heldNotes s))"
    using assms(1) by (simp add: ledger_distinct_def)
  show ?thesis
    by (cases "map_of (activeOscillators s) (f * 2 powi octaveShift s)")
       (simp_all add: heldNotes_stopNote_consistent [OF assms(2)] assms(3)
         spliceFirst_filter [OF d] spliceFirst_filter_idem)
qed

lemma filter_key_update_delete:
  "filter (\<lambda>e. fst e = k) (AList.update k v (AList.delete k al)) = [(k, v)]"
  by (induction al) auto

lemma map_of_update_delete:
  "map_of (AList.update k v (AList.delete k al)) k = Some v"
  by (simp add: update_conv')

lemma timeouts_stopNote:
  "map_of (activeOscillators s) k = Some v \<Longrightarrow>
   timeouts (stopNote k s) =
     timeouts s @
       [(200, oscillator v,
         (gainNode v)\<lparr>gain_calls := gain_calls (gainNode v) @
            [CancelScheduledValues (currentTime s),
             SetValueAtTime (gain_value (gainNode v)) (currentTime s),
             LinearRampToValueAtTime 0 (currentTime s + 0.05)]\<rparr>)]"
  by (simp add: stopNote_def Let_def split: option.splits)

lemma timeouts_playNote: "timeouts (playNote f a p s) =
   timeouts (stopNote (if a then f * 2 powi octaveShift s else f) s)"
  by (simp add: playNote_alt Let_def split: option.splits)

subsection \<open>Counting voices\<close>

lemma keys_update_fresh:
  "k \<notin> fst ` set al \<Longrightarrow> map fst (AList.update k v al) = map fst al @ [k]"
  by (induction al) auto

lemma keys_playNote_fresh:
  assumes "f * 2 powi octaveShift s \<notin> fst ` set (activeOscillators s)"
  shows "map fst (activeOscillators (playNote f True p s))
           = map fst (activeOscillators s) @ [f * 2 powi octaveShift s]"
  using assms by (simp add: activeOscillators_playNote Let_def keys_update_fresh)

lemma fold_playNote_frame [simp]:
  "octaveShift (fold (\<lambda>nf. playNote (snd nf) True (p nf)) nfs s) = octaveShift s"
  "MASTER_GAIN (fold (\<lambda>nf. playNote (snd nf) True (p nf)) nfs s) = MASTER_GAIN s"
  by (induction nfs arbitrary: s) simp_all

lemma keys_fold_playNote:
  assumes "distinct (map fst (activeOscillators s) @ map (\<lambda>nf. snd nf * 2 powi octaveShift s) nfs)"
  shows "map fst (activeOscillators (fold (\<lambda>nf. playNote (snd nf) True (p nf)) nfs s))
           = map fst (activeOscillators s) @ map (\<lambda>nf. snd nf * 2 powi octaveShift s) nfs"
  using assms
proof (induction nfs arbitrary: s)
  case Nil
  then show ?case by simp
next
  case (Cons nf nfs)
  let ?k = "snd nf * 2 powi octaveShift s"
  let ?s = "playNote (snd nf) True (p nf) s"
  have fresh: "?k \<notin> fst ` set (activeOscillators s)"
    using Cons.prems by auto
  have keys: "map fst (activeOscillators ?s) = map fst (activeOscillators s) @ [?k]"
    using fresh by (rule keys_playNote_fresh)
  have "distinct (map fst (activeOscillators ?s) @ map (\<lambda>nf. snd nf * 2 powi octaveShift ?s) nfs)"
    using Cons.prems by (simp add: keys)
  from Cons.IH [OF this] show ?case by (simp add: keys)
qed

lemma NOTE_FREQUENCIES_distinct: "distinct (map snd NOTE_FREQUENCIES)"
  by (simp add: NOTE_FREQUENCIES_def)

lemma pitch_classes_distinct_frequencies:
  assumes "distinct nfs" and "set nfs \<subseteq> set NOTE_FREQUENCIES"
  shows "distinct (map (\<lambda>nf. snd nf * 2 powi c) nfs)"
proof -
  have "inj_on snd (set NOTE_FREQUENCIES)"
    using NOTE_FREQUENCIES_distinct by (simp add: distinct_map)
  then have "inj_on snd (set nfs)"
    using assms(2) by (rule inj_on_subset)
  then have "inj_on (\<lambda>nf. snd nf * 2 powi c) (set nfs)"
    by (auto simp: inj_on_def)
  with assms(1) show ?thesis by (simp add: distinct_map)
qed

subsection \<open>Evaluating the scenarios\<close>

lemma getNoteFromFrequency_eval:
  "getNoteFromFrequency 261.63 = Some ''C''"
  "getNoteFromFrequency 277.18 = Some ''C#''"
  "getNoteFromFrequency 293.66 = Some ''D''"
  "getNoteFromFrequency 311.13 = Some ''D#''"
  "getNoteFromFrequency 329.63 = Some ''E''"
  "getNoteFromFrequency 349.23 = Some ''F''"
  "getNoteFromFrequency 369.99 = Some ''F#''"
  "getNoteFromFrequency 392 = Some ''G''"
  "getNoteFromFrequency 415.30 = Some ''G#''"
  "getNoteFromFrequency 440 = Some ''A''"
  "getNoteFromFrequency 466.16 = Some ''A#''"
  "getNoteFromFrequency 493.88 = Some ''B''"
  by (simp_all add: getNoteFromFrequency_def NOTE_FREQUENCIES_def nearDouble_far nearDouble_near)

lemmas getNoteFromFrequency_norm = getNoteFromFrequency_eval [simplified]

lemma plainIsPrimary_eval:
  "plainIsPrimary m 261.63 = m"
  "plainIsPrimary m 277.18 = m"
  "plainIsPrimary m 293.66 = m"
  "plainIsPrimary m 311.13 = m"
  "plainIsPrimary m 329.63 = m"
  "plainIsPrimary m 349.23 = m"
  "plainIsPrimary m 369.99 = m"
  "plainIsPrimary m 392 = m"
  "plainIsPrimary m 415.30 = m"
  "plainIsPrimary m 440 = m"
  "plainIsPrimary m 466.16 = m"
  "plainIsPrimary m 493.88 = m"
  by (simp_all add: plainIsPrimary_def getNoteFromFrequency_norm shift_up3 shift_down3
      NOTE_FREQUENCIES_lookup truthy_def)

lemmas plainIsPrimary_norm = plainIsPrimary_eval [simplified]

lemma isArrayIndex_eval:
  "\<not> isArrayIndex 261.63" "\<not> isArrayIndex 329.63" "\<not> isArrayIndex 523.26"
  "\<not> isArrayIndex 659.26"
  by (simp_all add: isArrayIndex_def)

lemmas isArrayIndex_norm = isArrayIndex_eval [simplified]

lemma initialApp_fields [simp]:
  "activeOscillators (initialApp st) = []"
  "heldNotes (initialApp st) = []"
  "lastPlayedNote (initialApp st) = None"
  "octaveShift (initialApp st) = 0"
  "currentTime (initialApp st) = 0"
  "majorOnTop (initialApp st) = set_majorOnTop st"
  "MASTER_GAIN (initialApp st) = set_volume st"
  "timeouts (initialApp st) = []"
  by (simp_all add: initialApp_def)

lemma touchedC_eq: "touchedC = playNote 261.63 True False (initialApp defaultSettings)"
  by (simp add: touchedC_def onPiano_def pianoKeys_eq piano_touchstart_def plainIsPrimary_norm
      defaultSettings_def)

lemma touchedE_eq: "touchedE = playNote 329.63 True False (initialApp defaultSettings)"
  by (simp add: touchedE_def onPiano_def pianoKeys_eq piano_touchstart_def plainIsPrimary_norm
      defaultSettings_def)

lemma wheelC_eq: "wheelC = playNoteFromWheel 261.63 ''C'' Minor (initialApp defaultSettings)"
  by (simp add: wheelC_def onWheel_def wheelElements_eq wheel_touchstart_def)

lemma reachable_scenarios:
  "reachable touchedC" "reachable soundingC" "reachable touchedE" "reachable wheelC"
proof -
  show c: "reachable touchedC" unfolding touchedC_def by (intro reachable.intros)
  show "reachable touchedE" unfolding touchedE_def by (intro reachable.intros)
  show "reachable wheelC" unfolding wheelC_def by (intro reachable.intros)
  have "currentTime touchedC \<le> 1" by (simp add: touchedC_eq)
  with c show "reachable soundingC" unfolding soundingC_def by (rule reachable.clock)
qed

lemma wheelC_fields:
  "activeOscillators wheelC =
     [(261.63, \<lparr>oscillator = newOscillator 261.63, gainNode = newGain 0,
                baseFrequency = 261.63, isPrimary = True, chordType = Some Minor\<rparr>)]"
  "heldNotes wheelC = [Wheel ''C'' Minor]"
  "lastPlayedNote wheelC = Some (Wheel ''C'' Minor)"
  "octaveShift wheelC = 0"
  by (simp_all add: wheelC_eq activeOscillators_playNoteFromWheel heldNotes_playNoteFromWheel
      lastPlayedNote_playNoteFromWheel heldNotes_stopNote Let_def)

lemma touchedC_fields:
  "activeOscillators touchedC =
     [(261.63, \<lparr>oscillator = newOscillator 261.63, gainNode = newGain 0,
                baseFrequency = 261.63, isPrimary = False, chordType = None\<rparr>)]"
  "heldNotes touchedC = [Plain ''C'']"
  "lastPlayedNote touchedC = Some (Plain ''C'')"
  "octaveShift touchedC = 0"
  "currentTime touchedC = 0"
  "timeouts touchedC = []"
  "MASTER_GAIN touchedC = 0.7"
  "majorOnTop touchedC = False"
  by (simp_all add: touchedC_eq activeOscillators_playNote heldNotes_playNote
      lastPlayedNote_playNote heldNotes_stopNote timeouts_playNote stopNote_def
      getNoteFromFrequency_norm Let_def defaultSettings_def)

lemma touchedE_fields:
  "activeOscillators touchedE =
     [(329.63, \<lparr>oscillator = newOscillator 329.63, gainNode = newGain 0,
                baseFrequency = 329.63, isPrimary = False, chordType = None\<rparr>)]"
  "heldNotes touchedE = [Plain ''E'']"
  "octaveShift touchedE = 0"
  "majorOnTop touchedE = False"
  by (simp_all add: touchedE_eq activeOscillators_playNote heldNotes_playNote
      heldNotes_stopNote getNoteFromFrequency_norm Let_def defaultSettings_def)

lemma soundingC_fields:
  "activeOscillators soundingC =
     [(261.63, \<lparr>oscillator = newOscillator 261.63,
                gainNode = \<lparr>gain_value = 0.15,
                   gain_calls = [SetValueAtTime 0 0, LinearRampToValueAtTime OSC_GAIN 0.007]\<rparr>,
                baseFrequency = 261.63, isPrimary = False, chordType = None\<rparr>)]"
  "heldNotes soundingC = [Plain ''C'']"
  "octaveShift soundingC = 0"
  "currentTime soundingC = 1"
  "MASTER_GAIN soundingC = 0.7"
  "majorOnTop soundingC = False"
  by (simp_all add: soundingC_def elapse_def touchedC_fields newGain_def)

lemma touchedCE_eq: "touchedCE = playNote 329.63 True False touchedC"
  by (simp add: touchedCE_def onPiano_def pianoKeys_eq piano_touchstart_def plainIsPrimary_norm
      touchedC_fields)

lemma touchedCE_fields:
  "heldNotes touchedCE = [Plain ''C'', Plain ''E'']"
  "map fst (activeOscillators touchedCE) = [261.63, 329.63]"
  by (simp_all add: touchedCE_eq activeOscillators_playNote heldNotes_playNote
      heldNotes_stopNote getNoteFromFrequency_norm Let_def touchedC_fields)

lemma reachable_touchedCE: "reachable touchedCE"
  unfolding touchedCE_def by (intro reachable.intros reachable_scenarios)

lemma map_of_update_delete_other:
  "k' \<noteq> k \<Longrightarrow> map_of (AList.update k v (AList.delete k al)) k' = map_of al k'"
  by (simp add: update_conv' delete_conv')

lemma map_of_adjust:
  "map_of (map (\<lambda>(k, v). (k, h v)) al) k = map_option h (map_of al k)"
  by (induction al) auto

lemma shiftActiveNotes_silent:
  "activeOscillators s = [] \<Longrightarrow> shiftActiveNotes a b s = s"
  by (simp add: shiftActiveNotes_alt Object_entries_def Object_keys_def)

lemma topOctave_fields:
  "octaveShift topOctave = 3"
  "activeOscillators topOctave = []"
  "majorOnTop topOctave = False"
  by (simp_all add: topOctave_def octaveUp_click_def octaveUp_def MAX_OCTAVE_SHIFT_def
      shiftActiveNotes_silent defaultSettings_def)

lemma bottomOctave_fields:
  "octaveShift bottomOctave = - 3"
  "activeOscillators bottomOctave = []"
  "majorOnTop bottomOctave = False"
  by (simp_all add: bottomOctave_def octaveDown_click_def octaveDown_def MIN_OCTAVE_SHIFT_def
      shiftActiveNotes_silent defaultSettings_def)

lemma topOctaveC_eq: "topOctaveC = playNote 261.63 True False topOctave"
  by (simp add: topOctaveC_def onPiano_def pianoKeys_eq piano_touchstart_def plainIsPrimary_norm
      topOctave_fields)

lemma bottomOctaveC_eq: "bottomOctaveC = playNote 261.63 True False bottomOctave"
  by (simp add: bottomOctaveC_def onPiano_def pianoKeys_eq piano_touchstart_def
      plainIsPrimary_norm bottomOctave_fields)

lemma octaveC_fields:
  "octaveShift topOctaveC = 3"
  "octaveShift bottomOctaveC = - 3"
  "map (\<lambda>(k, v). (k, baseFrequency v)) (activeOscillators topOctaveC) = [(2093.04, 261.63)]"
  "map (\<lambda>(k, v). (k, baseFrequency v)) (activeOscillators bottomOctaveC) = [(32.70375, 261.63)]"
  by (simp_all add: topOctaveC_eq bottomOctaveC_eq topOctave_fields bottomOctave_fields
      activeOscillators_playNote Let_def power_int_minus)

lemma reachable_octaveC: "reachable topOctaveC" "reachable bottomOctaveC"
  unfolding topOctaveC_def bottomOctaveC_def topOctave_def bottomOctave_def
  by (intro reachable.intros)+

lemma plainIsPrimary_all: "list_all (\<lambda>(n, f). plainIsPrimary m f = m) NOTE_FREQUENCIES"
  by (simp add: NOTE_FREQUENCIES_def plainIsPrimary_norm)

lemma plainIsPrimary_table: "(n, f) \<in> set NOTE_FREQUENCIES \<Longrightarrow> plainIsPrimary m f = m"
  using plainIsPrimary_all [of m] by (auto simp: list_all_iff)

lemma keyboardMap_table: "keyboardMap key = Some f \<Longrightarrow> plainIsPrimary m f = m"
  by (auto simp: keyboardMap_def plainIsPrimary_table split: option.splits dest!: map_of_SomeD)

lemma plain_input_isPrimary:
  assumes "(n, f) \<in> set NOTE_FREQUENCIES"
  shows "map_option isPrimary
           (map_of (activeOscillators (piano_touchstart f s)) (f * 2 powi octaveShift s))
         = Some (majorOnTop s)"
    and "map_option isPrimary
           (map_of (activeOscillators (piano_mousedown f s)) (f * 2 powi octaveShift s))
         = Some (majorOnTop s)"
    and "isMouseDown s \<Longrightarrow>
         map_option isPrimary
           (map_of (activeOscillators (piano_mouseenter f s)) (f * 2 powi octaveShift s))
         = Some (majorOnTop s)"
  using plainIsPrimary_table [OF assms]
  by (simp_all add: piano_touchstart_def piano_mousedown_def piano_mouseenter_def Let_def
      activeOscillators_playNote map_of_update_delete)

lemma fiveVoices_eq:
  "fiveVoices =
     playNote 392 True False (playNote 349.23 True False (playNote 329.63 True False
       (playNote 293.66 True False (playNote 261.63 True False (initialApp defaultSettings)))))"
  by (simp add: fiveVoices_def onPiano_def pianoKeys_eq piano_touchstart_def plainIsPrimary_norm
      defaultSettings_def)

lemma fiveVoices_fields:
  "map fst (activeOscillators fiveVoices) = [261.63, 293.66, 329.63, 349.23, 392]"
  "heldNotes fiveVoices = [Plain ''C'', Plain ''D'', Plain ''E'', Plain ''F'', Plain ''G'']"
  "lastPlayedNote fiveVoices = Some (Plain ''G'')"
  by (simp_all add: fiveVoices_eq activeOscillators_playNote heldNotes_playNote
      lastPlayedNote_playNote heldNotes_stopNote getNoteFromFrequency_norm Let_def)

lemma keydown_isPrimary:
  assumes "keyboardMap (toLowerCase (ev_key e)) = Some f" and "f \<noteq> 0"
    and "toLowerCase (ev_key e) \<notin> activeKeys s"
    and "\<not> ev_ctrlKey e" and "\<not> ev_metaKey e" and "\<not> ev_altKey e"
    and "ev_targetTagName e \<noteq> ''INPUT''"
  shows "map_option isPrimary
           (map_of (activeOscillators (document_keydown e s)) (f * 2 powi octaveShift s))
         = Some (majorOnTop s)"
proof -
  have z: "keyboardMap ''z'' = None" and x: "keyboardMap ''x'' = None"
    by (simp_all add: keyboardMap_def)
  have k: "toLowerCase (ev_key e) \<noteq> ''z''" "toLowerCase (ev_key e) \<noteq> ''x''"
    using assms(1) z x by auto
  show ?thesis
    using assms k keyboardMap_table [OF assms(1)]
    by (simp add: document_keydown_def Let_def activeOscillators_playNote map_of_update_delete)
qed

subsection \<open>The restart loop never takes the wheel branch\<close>

text \<open>
  When \<^verbatim>\<open>shiftActiveNotes\<close> reaches its restart loop, \<^verbatim>\<open>stopNote\<close> has removed from
  \<^verbatim>\<open>heldNotes\<close> the entry of every note it is about to restart, so the search for a wheel
  entry fails and every note is restarted by \<^verbatim>\<open>playNote(note.baseFreq)\<close>: no chord type,
  \<^verbatim>\<open>isPrimary\<close> at its default.
\<close>

lemma set_heldNotes_fold_stopNote:
  "set (heldNotes (fold stopNote ks s)) \<subseteq> set (heldNotes s)"
proof (induction ks arbitrary: s)
  case Nil
  then show ?case by simp
next
  case (Cons k ks)
  have "set (heldNotes (fold stopNote ks (stopNote k s))) \<subseteq> set (heldNotes (stopNote k s))"
    by (rule Cons.IH)
  also have "\<dots> \<subseteq> set (heldNotes s)" by (rule set_heldNotes_stopNote)
  finally show ?case by simp
qed

lemma getNoteFromFrequency_zero: "getNoteFromFrequency 0 = None"
  by (simp add: getNoteFromFrequency_def NOTE_FREQUENCIES_def nearDouble_far nearDouble_near)

lemma stopNote_removes_name:
  assumes "ledger_distinct s" and "map_of (activeOscillators s) k = Some d"
    and "getNoteFromFrequency (baseFrequency d) = Some n"
  shows "n \<notin> note_of ` set (heldNotes (stopNote k s))"
proof -
  have nz: "baseFrequency d \<noteq> 0"
    using assms(3) getNoteFromFrequency_zero by auto
  have "heldNotes (stopNote k s) = spliceFirst (\<lambda>h. note_of h = n) (heldNotes s)"
    using assms(2,3) nz by (simp add: heldNotes_stopNote)
  then show ?thesis
    using assms(1) by (simp add: ledger_distinct_def notin_spliceFirst)
qed

lemma fold_stopNote_removes_name:
  assumes "ledger_distinct s" and "k \<in> set ks" and "map_of (activeOscillators s) k = Some d"
    and "getNoteFromFrequency (baseFrequency d) = Some n"
  shows "n \<notin> note_of ` set (heldNotes (fold stopNote ks s))"
  using assms
proof (induction ks arbitrary: s)
  case Nil
  then show ?case by simp
next
  case (Cons k0 ks)
  show ?case
  proof (cases "k = k0")
    case True
    have "n \<notin> note_of ` set (heldNotes (stopNote k s))"
      using Cons.prems(1,3,4) by (rule stopNote_removes_name)
    moreover have "set (heldNotes (fold stopNote ks (stopNote k s)))
        \<subseteq> set (heldNotes (stopNote k s))"
      by (rule set_heldNotes_fold_stopNote)
    ultimately show ?thesis using True by auto
  next
    case False
    have "n \<notin> note_of ` set (heldNotes (fold stopNote ks (stopNote k0 s)))"
    proof (rule Cons.IH)
      show "ledger_distinct (stopNote k0 s)"
        using Cons.prems(1) by (rule ledger_distinct_stopNote)
      show "k \<in> set ks" using Cons.prems(2) False by simp
      show "map_of (activeOscillators (stopNote k0 s)) k = Some d"
        using Cons.prems(3) False by (simp add: activeOscillators_stopNote)
      show "getNoteFromFrequency (baseFrequency d) = Some n" by (rule Cons.prems(4))
    qed
    then show ?thesis by simp
  qed
qed

lemma find_isWheelEntryFor_None:
  "n \<notin> note_of ` set hs \<Longrightarrow> find (isWheelEntryFor n) hs = None"
  by (induction hs) (auto simp: isWheelEntryFor_def split: held_note.splits)

lemma set_heldNotes_playNote:
  "set (heldNotes (playNote f a p s)) \<subseteq> set (heldNotes s) \<union> range Plain"
proof -
  let ?k = "if a then f * 2 powi octaveShift s else f"
  have st: "set (heldNotes (stopNote ?k s)) \<subseteq> set (heldNotes s)"
    by (rule set_heldNotes_stopNote)
  have sp: "set (spliceFirst P (heldNotes (stopNote ?k s))) \<subseteq> set (heldNotes s)" for P
    using set_spliceFirst [of P "heldNotes (stopNote ?k s)"] st by blast
  show ?thesis
  proof (cases "getNoteFromFrequency f")
    case None
    then have "heldNotes (playNote f a p s) = heldNotes (stopNote ?k s)"
      by (simp add: heldNotes_playNote Let_def)
    with st show ?thesis by auto
  next
    case (Some n)
    then have "heldNotes (playNote f a p s)
        = spliceFirst (\<lambda>h. note_of h = n) (heldNotes (stopNote ?k s)) @ [Plain n]"
      by (simp add: heldNotes_playNote Let_def)
    with sp [of "\<lambda>h. note_of h = n"] show ?thesis by auto
  qed
qed

lemma wheel_entries_playNote:
  "Wheel n t \<in> set (heldNotes (playNote f a p s)) \<Longrightarrow> Wheel n t \<in> set (heldNotes s)"
  using set_heldNotes_playNote [of f a p s] by auto

lemma restart_takes_plain_branch:
  assumes "\<forall>t. Wheel n t \<notin> set (heldNotes s)" and "getNoteFromFrequency b = Some n"
  shows "restartNote (k, b, d) s = playNote b True True s"
proof -
  have "find (isWheelEntryFor n) (heldNotes s) = None"
    using assms(1)
    by (auto simp: find_None_iff isWheelEntryFor_def split: held_note.splits)
  then show ?thesis by (simp add: restartNote_def assms(2))
qed

lemma retrigger_always_plain:
  assumes "ledger_distinct s" and "keys_distinct s"
  shows "list_all (\<lambda>(k, v). chordType v = None \<and> isPrimary v)
           (activeOscillators (shiftActiveNotes a b s))"
proof -
  let ?notes = "map (\<lambda>(actualFreq, data). (actualFreq, baseFrequency data, data))
                  (Object_entries (activeOscillators s))"
  let ?s1 = "fold stopNote (Object_keys (activeOscillators s)) s"
  let ?J = "\<lambda>st. (\<forall>x \<in> set ?notes. \<forall>n t. getNoteFromFrequency (fst (snd x)) = Some n
                      \<longrightarrow> Wheel n t \<notin> set (heldNotes st))
                \<and> list_all (\<lambda>(k, v). chordType v = None \<and> isPrimary v) (activeOscillators st)"
  have removed: "Wheel n t \<notin> set (heldNotes ?s1)"
    if x: "x \<in> set ?notes" and n: "getNoteFromFrequency (fst (snd x)) = Some n" for x n t
  proof -
    from x obtain k d where kd: "(k, d) \<in> set (activeOscillators s)"
      and xe: "x = (k, baseFrequency d, d)"
      by (auto simp: set_Object_entries)
    have m: "map_of (activeOscillators s) k = Some d"
      using assms(2) kd by (simp add: keys_distinct_def)
    have "k \<in> set (Object_keys (activeOscillators s))"
      using kd by (force simp: set_Object_keys)
    then have "n \<notin> note_of ` set (heldNotes ?s1)"
      using assms(1) m n xe by (intro fold_stopNote_removes_name [where d = d]) simp_all
    then show ?thesis by force
  qed
  have start: "?J ?s1"
    using removed by (simp add: stop_all_registry)
  have step: "?J (restartNote x st)" if x: "x \<in> set ?notes" and J: "?J st" for x st
  proof (cases "getNoteFromFrequency (fst (snd x))")
    case None
    then have "restartNote x st = st"
      by (cases x) (simp add: restartNote_def)
    with J show ?thesis by simp
  next
    case (Some n)
    obtain k b d where xe: "x = (k, b, d)" by (cases x) auto
    have "\<forall>t. Wheel n t \<notin> set (heldNotes st)"
      using J x Some by blast
    then have r: "restartNote x st = playNote b True True st"
      using Some xe by (simp add: restart_takes_plain_branch)
    have "list_all (\<lambda>(k, v). chordType v = None \<and> isPrimary v)
            (activeOscillators (playNote b True True st))"
      using J by (simp add: activeOscillators_playNote Let_def list_all_update list_all_delete)
    moreover have "Wheel m t \<notin> set (heldNotes (playNote b True True st))"
      if "Wheel m t \<notin> set (heldNotes st)" for m t
      using that wheel_entries_playNote by blast
    ultimately show ?thesis
      using J unfolding r by blast
  qed
  have "?J (fold restartNote ?notes ?s1)"
    using start step by (rule fold_keeps)
  then show ?thesis by (simp add: shiftActiveNotes_alt)
qed

lemma octave_change_retriggers_plain:
  assumes "reachable s" and "octaveShift s < MAX_OCTAVE_SHIFT"
  shows "list_all (\<lambda>(k, v). chordType v = None \<and> isPrimary v)
           (activeOscillators (fire OctaveUpClick s))"
proof -
  have "ledger_distinct s" "keys_distinct s"
    using reachable_engine_inv [OF assms(1)] by (simp_all add: engine_inv_def)
  then have "ledger_distinct (s\<lparr>octaveShift := octaveShift s + 1\<rparr>)"
    and "keys_distinct (s\<lparr>octaveShift := octaveShift s + 1\<rparr>)"
    by (simp_all add: ledger_distinct_def keys_distinct_def)
  then show ?thesis
    using assms(2) by (simp add: octaveUp_click_def octaveUp_def retrigger_always_plain)
qed

lemma soundingCE_fields:
  "activeOscillators soundingCE =
     [(261.63, \<lparr>oscillator = newOscillator 261.63,
                gainNode = \<lparr>gain_value = 0.15,
                   gain_calls = [SetValueAtTime 0 0, LinearRampToValueAtTime OSC_GAIN 0.007]\<rparr>,
                baseFrequency = 261.63, isPrimary = False, chordType = None\<rparr>),
      (329.63, \<lparr>oscillator = newOscillator 329.63,
                gainNode = \<lparr>gain_value = 0.15,
                   gain_calls = [SetValueAtTime 0 0, LinearRampToValueAtTime OSC_GAIN 0.007]\<rparr>,
                baseFrequency = 329.63, isPrimary = False, chordType = None\<rparr>)]"
  "octaveShift soundingCE = 0"
  "currentTime soundingCE = 1"
  "MASTER_GAIN soundingCE = 0.7"
  by (simp_all add: soundingCE_def elapse_def touchedCE_eq touchedC_fields
      activeOscillators_playNote newGain_def Let_def)

lemma keys_playNoteFromWheel_fresh:
  assumes "f * 2 powi octaveShift s \<notin> fst ` set (activeOscillators s)"
  shows "map fst (activeOscillators (playNoteFromWheel f n t s))
           = map fst (activeOscillators s) @ [f * 2 powi octaveShift s]"
  using assms by (simp add: activeOscillators_playNoteFromWheel Let_def keys_update_fresh)

lemma timeouts_playNoteFromWheel:
  "timeouts (playNoteFromWheel f n t s) = timeouts (stopNote (f * 2 powi octaveShift s) s)"
  by (simp add: playNoteFromWheel_alt Let_def)

lemma wheelC_timeouts: "timeouts wheelC = []" "currentTime wheelC = 0"
  by (simp_all add: wheelC_eq timeouts_playNoteFromWheel stopNote_def)

section \<open>The claims\<close>

subsection \<open>Gain of the live voices on note on and note off\<close>

text \<open>
  C1, as amended. Note on and note off do not rebalance the live voices. \<^verbatim>\<open>playNote\<close> and
  \<^verbatim>\<open>playNoteFromWheel\<close> leave the registry entry at every other frequency as it was and
  give the new voice a gain that starts at 0 and ramps to the fixed \<^verbatim>\<open>OSC_GAIN\<close> in 7 ms;
  \<^verbatim>\<open>stopNote\<close> removes the entry at its frequency and leaves every other entry as it was.
  The rebalance is \<^verbatim>\<open>adjustActiveVolumes\<close>, which none of them calls: applied to a state, it
  keeps the keys, and ramps to \<^verbatim>\<open>calculateVolume\<close> in 50 ms exactly the voices whose
  \<^verbatim>\<open>gain.value\<close> is above 0.01.
\<close>

theorem noteOn_noteOff_leave_other_gains:
  "(\<forall>k'. k' \<noteq> (if a then f * 2 powi octaveShift s else f) \<longrightarrow>
       map_of (activeOscillators (playNote f a p s)) k' = map_of (activeOscillators s) k')
   \<and> map_option gainNode
        (map_of (activeOscillators (playNote f a p s)) (if a then f * 2 powi octaveShift s else f))
       = Some \<lparr>gain_value = 0,
               gain_calls = [SetValueAtTime 0 (currentTime s),
                             LinearRampToValueAtTime OSC_GAIN (currentTime s + 0.007)]\<rparr>
   \<and> (\<forall>k'. k' \<noteq> f * 2 powi octaveShift s \<longrightarrow>
       map_of (activeOscillators (playNoteFromWheel f n t s)) k' = map_of (activeOscillators s) k')
   \<and> map_option gainNode
        (map_of (activeOscillators (playNoteFromWheel f n t s)) (f * 2 powi octaveShift s))
       = Some \<lparr>gain_value = 0,
               gain_calls = [SetValueAtTime 0 (currentTime s),
                             LinearRampToValueAtTime OSC_GAIN (currentTime s + 0.007)]\<rparr>
   \<and> (\<forall>k'. k' \<noteq> k \<longrightarrow>
       map_of (activeOscillators (stopNote k s)) k' = map_of (activeOscillators s) k')
   \<and> map_of (activeOscillators (stopNote k s)) k = None
   \<and> map fst (activeOscillators (adjustActiveVolumes s)) = map fst (activeOscillators s)
   \<and> (\<forall>k v. map_of (activeOscillators s) k = Some v \<longrightarrow>
         map_of (activeOscillators (adjustActiveVolumes s)) k =
           Some (v\<lparr>gainNode :=
             (if gain_value (gainNode v) > 0.01
              then (gainNode v)\<lparr>gain_calls := gain_calls (gainNode v) @
                     [CancelScheduledValues (currentTime s),
                      SetValueAtTime (gain_value (gainNode v)) (currentTime s),
                      LinearRampToValueAtTime (calculateVolume s) (currentTime s + 0.05)]\<rparr>
              else gainNode v)\<rparr>))"
proof -
  have adj: "activeOscillators (adjustActiveVolumes s) =
      map (\<lambda>(k, v). (k, v\<lparr>gainNode := rampGain (currentTime s) (calculateVolume s) (gainNode v)\<rparr>))
        (activeOscillators s)"
    by (simp add: adjustActiveVolumes_def Let_def)
  have keys: "map fst (activeOscillators (adjustActiveVolumes s)) = map fst (activeOscillators s)"
    by (simp add: adj case_prod_unfold comp_def)
  show ?thesis
    by (simp add: activeOscillators_playNote activeOscillators_playNoteFromWheel
        activeOscillators_stopNote map_of_update_delete_other map_of_update_delete Let_def
        newGain_def delete_conv' keys)
       (simp add: adj map_of_adjust rampGain_def Let_def)
qed

text \<open>
  The amended statement at a concrete state: C and E have been sounding for a second at gain
  0.15. Playing G, from the piano or from the wheel, and stopping E leave the entry of C
  alone; \<^verbatim>\<open>adjustActiveVolumes\<close> would ramp C to \<open>max 0.05 (0.7 / sqrt 2)\<close>, the target for
  two voices.
\<close>

theorem noteOn_noteOff_leave_other_gains_witness:
  "392 \<noteq> (261.63::real) \<and> 329.63 \<noteq> (261.63::real)
   \<and> map_of (activeOscillators soundingCE) 261.63 =
        Some \<lparr>oscillator = newOscillator 261.63,
               gainNode = \<lparr>gain_value = 0.15,
                  gain_calls = [SetValueAtTime 0 0, LinearRampToValueAtTime OSC_GAIN 0.007]\<rparr>,
               baseFrequency = 261.63, isPrimary = False, chordType = None\<rparr>
   \<and> map_of (activeOscillators (playNote 392 True False soundingCE)) 261.63 =
        map_of (activeOscillators soundingCE) 261.63
   \<and> map_option gainNode (map_of (activeOscillators (playNote 392 True False soundingCE)) 392) =
        Some \<lparr>gain_value = 0,
          gain_calls = [SetValueAtTime 0 1, LinearRampToValueAtTime OSC_GAIN 1.007]\<rparr>
   \<and> map_of (activeOscillators (playNoteFromWheel 392 ''G'' Major soundingCE)) 261.63 =
        map_of (activeOscillators soundingCE) 261.63
   \<and> map_of (activeOscillators (stopNote 329.63 soundingCE)) 261.63 =
        map_of (activeOscillators soundingCE) 261.63
   \<and> map_of (activeOscillators (stopNote 329.63 soundingCE)) 329.63 = None
   \<and> map_option gainNode (map_of (activeOscillators (adjustActiveVolumes soundingCE)) 261.63) =
        Some \<lparr>gain_value = 0.15,
          gain_calls = [SetValueAtTime 0 0, LinearRampToValueAtTime OSC_GAIN 0.007,
            CancelScheduledValues 1, SetValueAtTime 0.15 1,
            LinearRampToValueAtTime (max 0.05 (0.7 / sqrt 2)) 1.05]\<rparr>"
  using noteOn_noteOff_leave_other_gains
    [where a = True and f = 392 and s = soundingCE and p = False and n = "''G''" and t = Major
       and k = "329.63"]
  by (simp add: soundingCE_fields calculateVolume_def Object_keys_def Object_entries_def)

text \<open>
  C1 as stated fails. C sounds at gain 0.15, above 0.01, and is not fading. A touch on the
  piano key of E makes two live voices, so the target is \<open>max 0.05 (0.7 / sqrt 2)\<close>; yet the
  entry of C is what it was, and no ramp to that target is among its automation calls.
\<close>

theorem rebalance_on_noteOn_counterexample:
  "(0.01::real) < 0.15
   \<and> map_of (activeOscillators soundingC) 261.63 =
        Some \<lparr>oscillator = newOscillator 261.63,
               gainNode = \<lparr>gain_value = 0.15,
                  gain_calls = [SetValueAtTime 0 0, LinearRampToValueAtTime OSC_GAIN 0.007]\<rparr>,
               baseFrequency = 261.63, isPrimary = False, chordType = None\<rparr>
   \<and> map_of (activeOscillators (fire (PianoTouchStart 2) soundingC)) 261.63 =
        Some \<lparr>oscillator = newOscillator 261.63,
               gainNode = \<lparr>gain_value = 0.15,
                  gain_calls = [SetValueAtTime 0 0, LinearRampToValueAtTime OSC_GAIN 0.007]\<rparr>,
               baseFrequency = 261.63, isPrimary = False, chordType = None\<rparr>
   \<and> map fst (activeOscillators (fire (PianoTouchStart 2) soundingC)) = [261.63, 329.63]
   \<and> calculateVolume (fire (PianoTouchStart 2) soundingC) = max 0.05 (0.7 / sqrt 2)
   \<and> currentTime (fire (PianoTouchStart 2) soundingC) = 1
   \<and> LinearRampToValueAtTime (max 0.05 (0.7 / sqrt 2)) (1 + 0.05)
        \<notin> set [SetValueAtTime 0 0, LinearRampToValueAtTime OSC_GAIN 0.007]"
  by (simp add: onPiano_def pianoKeys_eq piano_touchstart_def plainIsPrimary_norm
      soundingC_fields activeOscillators_playNote calculateVolume_def Object_keys_def
      Object_entries_def isArrayIndex_norm Let_def)

subsection \<open>Octave shift while voices are live\<close>

text \<open>
  C2, at a failing input. C is played from its inner wheel path (chord type minor), then
  the octave-up button is clicked. The voice is stopped at 261.63 and restarted at 523.26 with
  base frequency 261.63, but through \<^verbatim>\<open>playNote\<close>: the new voice has no chord type, and the
  held note and the last played note are the plain string. \<^verbatim>\<open>stopNote\<close> has removed the
  wheel entry from \<^verbatim>\<open>heldNotes\<close> before the restart loop looks for it; the lemma
  \<open>retrigger_always_plain\<close> says so of every state with one held note per name.
\<close>

theorem retrigger_loses_wheel_type:
  "map (\<lambda>(k, v). (k, baseFrequency v, isPrimary v, chordType v)) (activeOscillators wheelC)
     = [(261.63, 261.63, True, Some Minor)]
   \<and> heldNotes wheelC = [Wheel ''C'' Minor]
   \<and> map (\<lambda>(k, v). (k, baseFrequency v, isPrimary v, chordType v))
        (activeOscillators (fire OctaveUpClick wheelC)) = [(523.26, 261.63, True, None)]
   \<and> heldNotes (fire OctaveUpClick wheelC) = [Plain ''C'']
   \<and> lastPlayedNote (fire OctaveUpClick wheelC) = Some (Plain ''C'')
   \<and> octaveShift (fire OctaveUpClick wheelC) = 1"
  by (simp add: octaveUp_click_def octaveUp_def MAX_OCTAVE_SHIFT_def wheelC_fields
      shiftActiveNotes_alt Object_entries_def Object_keys_def isArrayIndex_norm restartNote_def
      getNoteFromFrequency_norm activeOscillators_playNote heldNotes_playNote
      lastPlayedNote_playNote heldNotes_stopNote activeOscillators_stopNote Let_def)

subsection \<open>The held-notes ledger\<close>

text \<open>
  C3. In every state the page can reach, \<^verbatim>\<open>heldNotes\<close> has at most one entry per note
  name. Playing a frequency whose note name is \<open>n\<close>, through \<^verbatim>\<open>playNote\<close> or through
  \<^verbatim>\<open>playNoteFromWheel\<close>, removes the entry of \<open>n\<close>, keeps the other entries in their order,
  and appends the new entry at the end.
\<close>

theorem ledger_one_entry_per_note:
  assumes "reachable s"
  shows "distinct (map note_of (heldNotes s))
   \<and> (\<forall>f n p. getNoteFromFrequency f = Some n \<longrightarrow>
         heldNotes (playNote f True p s)
           = filter (\<lambda>h. note_of h \<noteq> n) (heldNotes s) @ [Plain n])
   \<and> (\<forall>f n t. getNoteFromFrequency f = Some n \<longrightarrow>
         heldNotes (playNoteFromWheel f n t s)
           = filter (\<lambda>h. note_of h \<noteq> n) (heldNotes s) @ [Wheel n t])"
proof -
  have inv: "ledger_distinct s" "sounding_consistent s"
    using reachable_engine_inv [OF assms] by (simp_all add: engine_inv_def)
  show ?thesis
    using inv(1)
    by (simp add: ledger_distinct_def heldNotes_playNote heldNotes_playNoteFromWheel
        engage_ledger [OF inv])
qed

theorem ledger_one_entry_per_note_witness:
  "reachable touchedCE
   \<and> heldNotes touchedCE = [Plain ''C'', Plain ''E'']
   \<and> getNoteFromFrequency 261.63 = Some ''C''
   \<and> heldNotes (playNote 261.63 True True touchedCE) = [Plain ''E'', Plain ''C'']
   \<and> heldNotes (playNoteFromWheel 261.63 ''C'' Minor touchedCE) = [Plain ''E'', Wheel ''C'' Minor]"
  using ledger_one_entry_per_note [OF reachable_touchedCE]
  by (simp add: reachable_touchedCE touchedCE_fields getNoteFromFrequency_norm)

subsection \<open>Voice count and target loudness\<close>

text \<open>
  C4. Starting with no live voice, note on for \<open>N\<close> distinct entries of
  \<^verbatim>\<open>NOTE_FREQUENCIES\<close> (so \<open>N\<close> is at most 12), each either through \<^verbatim>\<open>playNote\<close> (no chord
  type, any \<^verbatim>\<open>isPrimary\<close>) or through \<^verbatim>\<open>playNoteFromWheel\<close> (with a chord type), in any mix
  and order, leaves \<open>N\<close> keys in the registry, and \<^verbatim>\<open>calculateVolume\<close> is the master volume
  when \<open>N\<close> is at most 1 and \<open>max 0.05 (MASTER_GAIN / sqrt N)\<close> otherwise.
\<close>

theorem polyphony_count_and_target:
  fixes items :: "((note_name \<times> real) \<times> bool \<times> chord_type option) list"
  assumes "distinct (map fst items)" and "set (map fst items) \<subseteq> set NOTE_FREQUENCIES"
    and "activeOscillators s = []"
  shows "length (Object_keys (activeOscillators
            (fold (\<lambda>(nf, p, c). case c of None \<Rightarrow> playNote (snd nf) True p
                                   | Some t \<Rightarrow> playNoteFromWheel (snd nf) (fst nf) t)
               items s))) = length items
   \<and> calculateVolume
        (fold (\<lambda>(nf, p, c). case c of None \<Rightarrow> playNote (snd nf) True p
                               | Some t \<Rightarrow> playNoteFromWheel (snd nf) (fst nf) t)
           items s) =
       (if length items \<le> 1 then MASTER_GAIN s
        else max 0.05 (MASTER_GAIN s / sqrt (real (length items))))"
proof -
  define noteOn :: "(note_name \<times> real) \<times> bool \<times> chord_type option \<Rightarrow> app \<Rightarrow> app"
    where "noteOn = (\<lambda>(nf, p, c). case c of None \<Rightarrow> playNote (snd nf) True p
                                   | Some t \<Rightarrow> playNoteFromWheel (snd nf) (fst nf) t)"
  define key :: "int \<Rightarrow> (note_name \<times> real) \<times> bool \<times> chord_type option \<Rightarrow> real"
    where "key = (\<lambda>c x. snd (fst x) * 2 powi c)"
  have frame: "octaveShift (noteOn x u) = octaveShift u" "MASTER_GAIN (noteOn x u) = MASTER_GAIN u"
    for x u
    by (auto simp: noteOn_def split: prod.splits option.splits)
  have step: "map fst (activeOscillators (noteOn x u))
        = map fst (activeOscillators u) @ [key (octaveShift u) x]"
    if "key (octaveShift u) x \<notin> fst ` set (activeOscillators u)" for x u
    using that
    by (auto simp: noteOn_def key_def keys_playNote_fresh keys_playNoteFromWheel_fresh
        split: prod.splits option.splits)
  have keys: "map fst (activeOscillators (fold noteOn xs u))
        = map fst (activeOscillators u) @ map (key (octaveShift u)) xs
      \<and> octaveShift (fold noteOn xs u) = octaveShift u
      \<and> MASTER_GAIN (fold noteOn xs u) = MASTER_GAIN u"
    if "distinct (map fst (activeOscillators u) @ map (key (octaveShift u)) xs)" for xs u
    using that
  proof (induction xs arbitrary: u)
    case Nil
    then show ?case by simp
  next
    case (Cons x xs)
    have fresh: "key (octaveShift u) x \<notin> fst ` set (activeOscillators u)"
      using Cons.prems by auto
    have k: "map fst (activeOscillators (noteOn x u))
        = map fst (activeOscillators u) @ [key (octaveShift u) x]"
      using fresh by (rule step)
    have "distinct (map fst (activeOscillators (noteOn x u))
        @ map (key (octaveShift (noteOn x u))) xs)"
      using Cons.prems by (simp add: k frame)
    from Cons.IH [OF this] show ?case by (simp add: k frame)
  qed
  have "distinct (map (\<lambda>nf. snd nf * 2 powi octaveShift s) (map fst items))"
    using assms(1,2) by (rule pitch_classes_distinct_frequencies)
  then have "distinct (map (key (octaveShift s)) items)"
    by (simp add: key_def comp_def)
  then have "distinct (map fst (activeOscillators s) @ map (key (octaveShift s)) items)"
    using assms(3) by simp
  from keys [OF this]
  have k: "map fst (activeOscillators (fold noteOn items s)) = map (key (octaveShift s)) items"
    and g: "MASTER_GAIN (fold noteOn items s) = MASTER_GAIN s"
    using assms(3) by simp_all
  from k have "length (map fst (activeOscillators (fold noteOn items s))) = length items"
    by simp
  then have n: "length (Object_keys (activeOscillators (fold noteOn items s))) = length items"
    by (simp add: length_Object_keys)
  have "length (Object_keys (activeOscillators (fold noteOn items s))) = length items
    \<and> calculateVolume (fold noteOn items s) =
       (if length items \<le> 1 then MASTER_GAIN s
        else max 0.05 (MASTER_GAIN s / sqrt (real (length items))))"
    unfolding calculateVolume_def Let_def n g
    by (cases "length items = 0"; cases "length items = 1") (auto simp: le_Suc_eq)
  then show ?thesis unfolding noteOn_def .
qed

theorem polyphony_count_and_target_witness:
  "distinct (map fst [((''C'', 261.63::real), False, None), ((''E'', 329.63), True, Some Major),
                      ((''G'', 392), True, None), ((''B'', 493.88), True, Some Minor)])
   \<and> set (map fst [((''C'', 261.63::real), False, None), ((''E'', 329.63), True, Some Major),
                    ((''G'', 392), True, None), ((''B'', 493.88), True, Some Minor)])
         \<subseteq> set NOTE_FREQUENCIES
   \<and> activeOscillators (initialApp defaultSettings) = []
   \<and> length (Object_keys (activeOscillators
        (fold (\<lambda>(nf, p, c). case c of None \<Rightarrow> playNote (snd nf) True p
                               | Some t \<Rightarrow> playNoteFromWheel (snd nf) (fst nf) t)
           [((''C'', 261.63), False, None), ((''E'', 329.63), True, Some Major),
            ((''G'', 392), True, None), ((''B'', 493.88), True, Some Minor)]
           (initialApp defaultSettings)))) = 4
   \<and> calculateVolume
        (fold (\<lambda>(nf, p, c). case c of None \<Rightarrow> playNote (snd nf) True p
                               | Some t \<Rightarrow> playNoteFromWheel (snd nf) (fst nf) t)
           [((''C'', 261.63), False, None), ((''E'', 329.63), True, Some Major),
            ((''G'', 392), True, None), ((''B'', 493.88), True, Some Minor)]
           (initialApp defaultSettings)) = 0.35"
proof -
  let ?items = "[((''C'', 261.63::real), False, None), ((''E'', 329.63), True, Some Major),
                 ((''G'', 392), True, None), ((''B'', 493.88), True, Some Minor)]"
  have sub: "set (map fst ?items) \<subseteq> set NOTE_FREQUENCIES"
    by (simp add: NOTE_FREQUENCIES_def)
  have d: "distinct (map fst ?items)"
    by simp
  have e: "activeOscillators (initialApp defaultSettings) = []" by simp
  show ?thesis
    using polyphony_count_and_target [OF d sub e] sub
    by (simp add: defaultSettings_def)
qed

subsection \<open>All notes off\<close>

text \<open>
  C5. Whatever the state, the \<^verbatim>\<open>blur\<close> handler leaves no live voice and no held note,
  and does not change the last played note.
\<close>

theorem window_blur_all_notes_off:
  "activeOscillators (window_blur s) = []
   \<and> length (Object_keys (activeOscillators (window_blur s))) = 0
   \<and> heldNotes (window_blur s) = []
   \<and> lastPlayedNote (window_blur s) = lastPlayedNote s"
  by (simp add: window_blur_registry window_blur_ledger Object_keys_def Object_entries_def)

theorem window_blur_all_notes_off_witness:
  "map fst (activeOscillators fiveVoices) = [261.63, 293.66, 329.63, 349.23, 392]
   \<and> heldNotes fiveVoices = [Plain ''C'', Plain ''D'', Plain ''E'', Plain ''F'', Plain ''G'']
   \<and> activeOscillators (window_blur fiveVoices) = []
   \<and> length (Object_keys (activeOscillators (window_blur fiveVoices))) = 0
   \<and> heldNotes (window_blur fiveVoices) = []
   \<and> lastPlayedNote (window_blur fiveVoices) = Some (Plain ''G'')"
  using window_blur_all_notes_off [of fiveVoices]
  by (simp add: fiveVoices_fields Object_keys_def Object_entries_def)

subsection \<open>Bounds of the octave shift\<close>

text \<open>
  C6. In every state the page can reach, the octave shift is between -3 and 3 and every
  voice is registered at its base frequency times two to the octave shift. At -3 the
  octave-down button and the \<^verbatim>\<open>z\<close> key change nothing at all; at 3 the octave-up button and
  the \<^verbatim>\<open>x\<close> key change nothing at all.
\<close>

theorem octave_shift_bounded:
  assumes "reachable s"
  shows "- 3 \<le> octaveShift s \<and> octaveShift s \<le> 3
   \<and> (\<forall>(k, v) \<in> set (activeOscillators s). k = baseFrequency v * 2 powi octaveShift s)
   \<and> (octaveShift s = - 3 \<longrightarrow>
        octaveDown_click s = s \<and> (\<forall>e. toLowerCase (ev_key e) = ''z'' \<longrightarrow> document_keydown e s = s))
   \<and> (octaveShift s = 3 \<longrightarrow>
        octaveUp_click s = s \<and> (\<forall>e. toLowerCase (ev_key e) = ''x'' \<longrightarrow> document_keydown e s = s))"
proof -
  have inv: "shift_in_range s" "sounding_consistent s"
    using reachable_engine_inv [OF assms] by (simp_all add: engine_inv_def)
  have z: "keyboardMap ''z'' = None" and x: "keyboardMap ''x'' = None"
    by (simp_all add: keyboardMap_def)
  have down: "octaveShift s = - 3 \<Longrightarrow> toLowerCase (ev_key e) = ''z'' \<Longrightarrow> document_keydown e s = s" for e
    by (simp add: document_keydown_def Let_def MIN_OCTAVE_SHIFT_def MAX_OCTAVE_SHIFT_def z)
  have up: "octaveShift s = 3 \<Longrightarrow> toLowerCase (ev_key e) = ''x'' \<Longrightarrow> document_keydown e s = s" for e
    by (simp add: document_keydown_def Let_def MIN_OCTAVE_SHIFT_def MAX_OCTAVE_SHIFT_def x)
  show ?thesis
    using inv down up
    by (auto simp: shift_in_range_def sounding_consistent_def list_all_iff MIN_OCTAVE_SHIFT_def
        MAX_OCTAVE_SHIFT_def octaveDown_click_def octaveUp_click_def)
qed

theorem octave_shift_bounded_witness:
  "reachable topOctaveC \<and> reachable bottomOctaveC
   \<and> octaveShift topOctaveC = 3 \<and> octaveShift bottomOctaveC = - 3
   \<and> map (\<lambda>(k, v). (k, baseFrequency v)) (activeOscillators topOctaveC) = [(2093.04, 261.63)]
   \<and> 2093.04 = 261.63 * (2::real) powi 3
   \<and> octaveUp_click topOctaveC = topOctaveC
   \<and> toLowerCase ''X'' = ''x''
   \<and> document_keydown \<lparr>ev_key = ''X'', ev_ctrlKey = False, ev_metaKey = False,
         ev_altKey = False, ev_targetTagName = ''BODY''\<rparr> topOctaveC = topOctaveC
   \<and> octaveDown_click bottomOctaveC = bottomOctaveC
   \<and> toLowerCase ''z'' = ''z''
   \<and> document_keydown \<lparr>ev_key = ''z'', ev_ctrlKey = False, ev_metaKey = False,
         ev_altKey = False, ev_targetTagName = ''BODY''\<rparr> bottomOctaveC = bottomOctaveC"
  using octave_shift_bounded [OF reachable_octaveC(1)] octave_shift_bounded [OF reachable_octaveC(2)]
  by (simp add: reachable_octaveC octaveC_fields toLowerCase_def)

subsection \<open>Note on at a frequency that is already sounding\<close>

text \<open>
  C7. In every state the page can reach the registry has one entry per key, and
  \<^verbatim>\<open>playNote\<close> and \<^verbatim>\<open>playNoteFromWheel\<close> keep it so. For either of them, two consecutive
  calls with the same arguments leave the registry that one call leaves, with exactly one
  entry at the sounding frequency, and that entry is the new voice: a started sine
  oscillator and a gain ramping from 0 to 0.15 in 7 ms. When a voice was registered there,
  its oscillator and its gain node, the gain ramped to 0, are handed to the timeout that
  releases them. A note on through one path after a note on through the other leaves the
  registry that the later call alone leaves.
\<close>

theorem noteOn_retrigger:
  assumes "reachable s"
  shows "keys_distinct s
   \<and> keys_distinct (playNote f a p s)
   \<and> activeOscillators (playNote f a p (playNote f a p s)) = activeOscillators (playNote f a p s)
   \<and> length (filter (\<lambda>e. fst e = (if a then f * 2 powi octaveShift s else f))
        (activeOscillators (playNote f a p s))) = 1
   \<and> (\<forall>v. map_of (activeOscillators s) (if a then f * 2 powi octaveShift s else f) = Some v \<longrightarrow>
        timeouts (playNote f a p s) =
          timeouts s @
            [(200, oscillator v,
              (gainNode v)\<lparr>gain_calls := gain_calls (gainNode v) @
                 [CancelScheduledValues (currentTime s),
                  SetValueAtTime (gain_value (gainNode v)) (currentTime s),
                  LinearRampToValueAtTime 0 (currentTime s + 0.05)]\<rparr>)])
   \<and> map_of (activeOscillators (playNote f a p s)) (if a then f * 2 powi octaveShift s else f) =
        Some \<lparr>oscillator = \<lparr>osc_frequency = (if a then f * 2 powi octaveShift s else f),
                             osc_type = ''sine'', osc_started = True\<rparr>,
               gainNode = \<lparr>gain_value = 0,
                  gain_calls = [SetValueAtTime 0 (currentTime s),
                                LinearRampToValueAtTime 0.15 (currentTime s + 0.007)]\<rparr>,
               baseFrequency = f, isPrimary = p, chordType = None\<rparr>
   \<and> keys_distinct (playNoteFromWheel f n t s)
   \<and> activeOscillators (playNoteFromWheel f n t (playNoteFromWheel f n t s))
        = activeOscillators (playNoteFromWheel f n t s)
   \<and> length (filter (\<lambda>e. fst e = f * 2 powi octaveShift s)
        (activeOscillators (playNoteFromWheel f n t s))) = 1
   \<and> (\<forall>v. map_of (activeOscillators s) (f * 2 powi octaveShift s) = Some v \<longrightarrow>
        timeouts (playNoteFromWheel f n t s) =
          timeouts s @
            [(200, oscillator v,
              (gainNode v)\<lparr>gain_calls := gain_calls (gainNode v) @
                 [CancelScheduledValues (currentTime s),
                  SetValueAtTime (gain_value (gainNode v)) (currentTime s),
                  LinearRampToValueAtTime 0 (currentTime s + 0.05)]\<rparr>)])
   \<and> map_of (activeOscillators (playNoteFromWheel f n t s)) (f * 2 powi octaveShift s) =
        Some \<lparr>oscillator = \<lparr>osc_frequency = f * 2 powi octaveShift s,
                             osc_type = ''sine'', osc_started = True\<rparr>,
               gainNode = \<lparr>gain_value = 0,
                  gain_calls = [SetValueAtTime 0 (currentTime s),
                                LinearRampToValueAtTime 0.15 (currentTime s + 0.007)]\<rparr>,
               baseFrequency = f, isPrimary = True, chordType = Some t\<rparr>
   \<and> activeOscillators (playNote f True p (playNoteFromWheel f n t s))
        = activeOscillators (playNote f True p s)
   \<and> activeOscillators (playNoteFromWheel f n t (playNote f True p s))
        = activeOscillators (playNoteFromWheel f n t s)"
proof -
  have k: "keys_distinct s"
    using reachable_engine_inv [OF assms] by (simp add: engine_inv_def)
  have twice: "activeOscillators (playNote f a p (playNote f a p s))
      = activeOscillators (playNote f a p s)"
    by (simp add: activeOscillators_playNote Let_def delete_update_same delete_idem)
  have one: "length (filter (\<lambda>e. fst e = (if a then f * 2 powi octaveShift s else f))
        (activeOscillators (playNote f a p s))) = 1"
    by (simp add: activeOscillators_playNote Let_def filter_key_update_delete)
  have new: "map_of (activeOscillators (playNote f a p s))
        (if a then f * 2 powi octaveShift s else f) =
        Some \<lparr>oscillator = \<lparr>osc_frequency = (if a then f * 2 powi octaveShift s else f),
                             osc_type = ''sine'', osc_started = True\<rparr>,
               gainNode = \<lparr>gain_value = 0,
                  gain_calls = [SetValueAtTime 0 (currentTime s),
                                LinearRampToValueAtTime 0.15 (currentTime s + 0.007)]\<rparr>,
               baseFrequency = f, isPrimary = p, chordType = None\<rparr>"
    by (simp add: activeOscillators_playNote Let_def map_of_update_delete newOscillator_def
        newGain_def OSC_GAIN_def)
  have wtwice: "activeOscillators (playNoteFromWheel f n t (playNoteFromWheel f n t s))
      = activeOscillators (playNoteFromWheel f n t s)"
    by (simp add: activeOscillators_playNoteFromWheel Let_def delete_update_same delete_idem)
  have wone: "length (filter (\<lambda>e. fst e = f * 2 powi octaveShift s)
        (activeOscillators (playNoteFromWheel f n t s))) = 1"
    by (simp add: activeOscillators_playNoteFromWheel Let_def filter_key_update_delete)
  have wnew: "map_of (activeOscillators (playNoteFromWheel f n t s)) (f * 2 powi octaveShift s) =
        Some \<lparr>oscillator = \<lparr>osc_frequency = f * 2 powi octaveShift s,
                             osc_type = ''sine'', osc_started = True\<rparr>,
               gainNode = \<lparr>gain_value = 0,
                  gain_calls = [SetValueAtTime 0 (currentTime s),
                                LinearRampToValueAtTime 0.15 (currentTime s + 0.007)]\<rparr>,
               baseFrequency = f, isPrimary = True, chordType = Some t\<rparr>"
    by (simp add: activeOscillators_playNoteFromWheel Let_def map_of_update_delete
        newOscillator_def newGain_def OSC_GAIN_def)
  have mixed: "activeOscillators (playNote f True p (playNoteFromWheel f n t s))
        = activeOscillators (playNote f True p s)"
    "activeOscillators (playNoteFromWheel f n t (playNote f True p s))
        = activeOscillators (playNoteFromWheel f n t s)"
    by (simp_all add: activeOscillators_playNote activeOscillators_playNoteFromWheel Let_def
        delete_update_same delete_idem)
  have plain: "keys_distinct (playNote f a p s)"
    "\<forall>v. map_of (activeOscillators s) (if a then f * 2 powi octaveShift s else f) = Some v \<longrightarrow>
        timeouts (playNote f a p s) =
          timeouts s @
            [(200, oscillator v,
              (gainNode v)\<lparr>gain_calls := gain_calls (gainNode v) @
                 [CancelScheduledValues (currentTime s),
                  SetValueAtTime (gain_value (gainNode v)) (currentTime s),
                  LinearRampToValueAtTime 0 (currentTime s + 0.05)]\<rparr>)]"
    using k by (simp_all add: keys_distinct_playNote timeouts_playNote timeouts_stopNote)
  have wheel: "keys_distinct (playNoteFromWheel f n t s)"
    "\<forall>v. map_of (activeOscillators s) (f * 2 powi octaveShift s) = Some v \<longrightarrow>
        timeouts (playNoteFromWheel f n t s) =
          timeouts s @
            [(200, oscillator v,
              (gainNode v)\<lparr>gain_calls := gain_calls (gainNode v) @
                 [CancelScheduledValues (currentTime s),
                  SetValueAtTime (gain_value (gainNode v)) (currentTime s),
                  LinearRampToValueAtTime 0 (currentTime s + 0.05)]\<rparr>)]"
    using k
    by (simp_all add: keys_distinct_playNoteFromWheel timeouts_playNoteFromWheel timeouts_stopNote)
  show ?thesis
    using k twice one new wtwice wone wnew mixed plain wheel by blast
qed

theorem noteOn_retrigger_witness:
  "reachable touchedC \<and> reachable wheelC
   \<and> keys_distinct touchedC \<and> keys_distinct wheelC
   \<and> map_of (activeOscillators touchedC) (261.63 * 2 powi octaveShift touchedC) =
        Some \<lparr>oscillator = newOscillator 261.63, gainNode = newGain 0,
               baseFrequency = 261.63, isPrimary = False, chordType = None\<rparr>
   \<and> activeOscillators (playNote 261.63 True False (playNote 261.63 True False touchedC))
        = activeOscillators (playNote 261.63 True False touchedC)
   \<and> length (filter (\<lambda>e. fst e = 261.63) (activeOscillators (playNote 261.63 True False touchedC))) = 1
   \<and> timeouts (playNote 261.63 True False touchedC) =
        [(200, newOscillator 261.63,
          \<lparr>gain_value = 0,
           gain_calls = [SetValueAtTime 0 0, LinearRampToValueAtTime OSC_GAIN 0.007,
             CancelScheduledValues 0, SetValueAtTime 0 0, LinearRampToValueAtTime 0 0.05]\<rparr>)]
   \<and> map_of (activeOscillators wheelC) (261.63 * 2 powi octaveShift wheelC) =
        Some \<lparr>oscillator = newOscillator 261.63, gainNode = newGain 0,
               baseFrequency = 261.63, isPrimary = True, chordType = Some Minor\<rparr>
   \<and> activeOscillators (playNoteFromWheel 261.63 ''C'' Major
          (playNoteFromWheel 261.63 ''C'' Major wheelC))
        = activeOscillators (playNoteFromWheel 261.63 ''C'' Major wheelC)
   \<and> length (filter (\<lambda>e. fst e = 261.63)
        (activeOscillators (playNoteFromWheel 261.63 ''C'' Major wheelC))) = 1
   \<and> map_option chordType (map_of (activeOscillators (playNoteFromWheel 261.63 ''C'' Major wheelC))
        261.63) = Some (Some Major)
   \<and> timeouts (playNoteFromWheel 261.63 ''C'' Major wheelC) =
        [(200, newOscillator 261.63,
          \<lparr>gain_value = 0,
           gain_calls = [SetValueAtTime 0 0, LinearRampToValueAtTime OSC_GAIN 0.007,
             CancelScheduledValues 0, SetValueAtTime 0 0, LinearRampToValueAtTime 0 0.05]\<rparr>)]"
  using noteOn_retrigger [OF reachable_scenarios(1), of "261.63" True False "''C''" Major]
    noteOn_retrigger [OF reachable_scenarios(4), of "261.63" True False "''C''" Major]
  by (simp add: reachable_scenarios touchedC_fields wheelC_fields wheelC_timeouts newGain_def)

subsection \<open>The primary flag of a plain note\<close>

text \<open>
  C8, at a failing input. With \<^verbatim>\<open>majorOnTop\<close> false, a touch on the piano key of E
  registers a voice that is not primary, as the lemmas \<open>plain_input_isPrimary\<close> and
  \<open>keydown_isPrimary\<close> say of every plain input path. A click on the octave-up button then
  restarts the note with \<^verbatim>\<open>playNote(note.baseFreq)\<close>, whose \<^verbatim>\<open>isPrimary\<close> defaults to true:
  the voice is primary although \<^verbatim>\<open>majorOnTop\<close> is still false.
\<close>

theorem retrigger_primary_default:
  "majorOnTop touchedE = False
   \<and> map (\<lambda>(k, v). (k, baseFrequency v, isPrimary v, chordType v)) (activeOscillators touchedE)
       = [(329.63, 329.63, False, None)]
   \<and> majorOnTop (fire OctaveUpClick touchedE) = False
   \<and> map (\<lambda>(k, v). (k, baseFrequency v, isPrimary v, chordType v))
        (activeOscillators (fire OctaveUpClick touchedE)) = [(659.26, 329.63, True, None)]"
  by (simp add: octaveUp_click_def octaveUp_def MAX_OCTAVE_SHIFT_def touchedE_fields
      shiftActiveNotes_alt Object_entries_def Object_keys_def isArrayIndex_norm restartNote_def
      getNoteFromFrequency_norm activeOscillators_playNote heldNotes_playNote
      lastPlayedNote_playNote heldNotes_stopNote activeOscillators_stopNote Let_def)

subsection \<open>Note off at an unknown frequency\<close>

text \<open>
  C9. When no voice is registered at a frequency, \<^verbatim>\<open>stopNote\<close> returns at once: the whole
  state, and so the registry, the held notes and the last played note, is what it was.
\<close>

theorem stopNote_absent_noop:
  "map_of (activeOscillators s) f = None \<Longrightarrow> stopNote f s = s"
  by (simp add: stopNote_def)

theorem stopNote_absent_noop_witness:
  "map_of (activeOscillators (playNote 261.63 True True (initialApp defaultSettings))) 440 = None
   \<and> stopNote 440 (playNote 261.63 True True (initialApp defaultSettings))
       = playNote 261.63 True True (initialApp defaultSettings)"
  using stopNote_absent_noop [of "playNote 261.63 True True (initialApp defaultSettings)" 440]
  by (simp add: activeOscillators_playNote initialApp_def Let_def)

subsection \<open>Note on at a frequency outside the table\<close>

text \<open>
  C10. In every state the page can reach, \<^verbatim>\<open>playNote\<close> at a frequency for which
  \<^verbatim>\<open>getNoteFromFrequency\<close> finds no entry of \<^verbatim>\<open>NOTE_FREQUENCIES\<close> within 0.01 Hz (the test
  of the code, in double arithmetic) registers exactly one voice at the shifted frequency,
  with a started sine oscillator and a gain ramping from 0 to 0.15 in 7 ms, and leaves the
  held notes and the last played note as they were. By \<open>getNoteFromFrequency_far\<close> this
  covers every frequency at least 0.011 Hz away from all twelve entries; by
  \<open>getNoteFromFrequency_rounding\<close> it does not cover 370, which the code takes for F sharp.
\<close>

theorem offTable_noteOn_frame:
  assumes "reachable s" and "getNoteFromFrequency f = None"
  shows "map_of (activeOscillators (playNote f True p s)) (f * 2 powi octaveShift s) =
           Some \<lparr>oscillator = \<lparr>osc_frequency = f * 2 powi octaveShift s, osc_type = ''sine'',
                                osc_started = True\<rparr>,
                  gainNode = \<lparr>gain_value = 0,
                     gain_calls = [SetValueAtTime 0 (currentTime s),
                                   LinearRampToValueAtTime 0.15 (currentTime s + 0.007)]\<rparr>,
                  baseFrequency = f, isPrimary = p, chordType = None\<rparr>
   \<and> length (filter (\<lambda>e. fst e = f * 2 powi octaveShift s)
        (activeOscillators (playNote f True p s))) = 1
   \<and> heldNotes (playNote f True p s) = heldNotes s
   \<and> lastPlayedNote (playNote f True p s) = lastPlayedNote s"
proof -
  have c: "sounding_consistent s"
    using reachable_engine_inv [OF assms(1)] by (simp add: engine_inv_def)
  have "heldNotes (stopNote (f * 2 powi octaveShift s) s) = heldNotes s"
    by (simp add: heldNotes_stopNote_consistent [OF c] assms(2) split: option.splits)
  then show ?thesis
    by (simp add: activeOscillators_playNote heldNotes_playNote lastPlayedNote_playNote
        assms(2) Let_def map_of_update_delete newOscillator_def newGain_def OSC_GAIN_def
        filter_key_update_delete)
qed

theorem offTable_noteOn_frame_witness:
  "reachable touchedC
   \<and> getNoteFromFrequency 300 = None
   \<and> map_of (activeOscillators (playNote 300 True True touchedC)) 300 =
        Some \<lparr>oscillator = \<lparr>osc_frequency = 300, osc_type = ''sine'', osc_started = True\<rparr>,
               gainNode = \<lparr>gain_value = 0,
                  gain_calls = [SetValueAtTime 0 0, LinearRampToValueAtTime 0.15 0.007]\<rparr>,
               baseFrequency = 300, isPrimary = True, chordType = None\<rparr>
   \<and> map fst (activeOscillators (playNote 300 True True touchedC)) = [261.63, 300]
   \<and> heldNotes (playNote 300 True True touchedC) = [Plain ''C'']
   \<and> lastPlayedNote (playNote 300 True True touchedC) = Some (Plain ''C'')"
proof -
  have n: "getNoteFromFrequency 300 = None"
    by (rule getNoteFromFrequency_far) (simp add: NOTE_FREQUENCIES_def)
  show ?thesis
    using offTable_noteOn_frame [OF reachable_scenarios(1) n, of True]
    by (simp add: reachable_scenarios n touchedC_fields activeOscillators_playNote Let_def)
qed

end
